theory Spec2Isabelle
  imports Complex_Main "HOL-Library.Multiset"
begin

section \<open>Data model of the calibration script\<close>

text \<open>
  The script \<^verbatim>\<open>calibrate.py\<close> works on Python dictionaries and Python numbers.
  Annotations (keys \<^verbatim>\<open>x\<close>, \<^verbatim>\<open>y\<close>, \<^verbatim>\<open>color\<close>) and detections (keys \<^verbatim>\<open>x\<close>,
  \<^verbatim>\<open>y\<close>, \<^verbatim>\<open>radius\<close>, \<^verbatim>\<open>color\<close>) become records. Coordinates, distances and
  scores are modelled as mathematical reals: the comparisons and quotients of the source
  are read over the reals, counts are natural numbers, and every exception the source can
  raise is a value of \<open>py_error\<close>. The rescaling at the end of the run truncates its
  quotients, so there the division is modelled in binary64.
\<close>

datatype py_error = ZeroDivisionError | ValueError string | OverflowError

record annotation =
  ann_x :: real
  ann_y :: real
  ann_color :: string

record detection =
  det_x :: real
  det_y :: real
  det_radius :: real
  det_color :: string

text \<open>One entry of the list \<^verbatim>\<open>matched\<close> of \<^verbatim>\<open>calculate_score\<close>.\<close>

record match_entry =
  distance :: real
  color_match :: bool

text \<open>The dictionary returned by \<^verbatim>\<open>calculate_score\<close>.\<close>

record score =
  precision :: real
  recall :: real
  f1 :: real
  color_accuracy :: real
  avg_position_error :: real
  true_positives :: nat
  false_positives :: nat
  false_negatives :: nat
  combined_score :: real

section \<open>The scorer: \<^verbatim>\<open>PokDetectorCalibrator.calculate_score\<close>\<close>

text \<open>
  \<^verbatim>\<open>dist = np.sqrt((det['x'] - ann['x'])**2 + (det['y'] - ann['y'])**2)\<close>
\<close>

definition euclid :: "detection \<Rightarrow> annotation \<Rightarrow> real" where
  "euclid det ann = sqrt ((det_x det - ann_x ann)\<^sup>2 + (det_y det - ann_y ann)\<^sup>2)"

text \<open>
  The inner loop \<^verbatim>\<open>for j, det in enumerate(unmatched_detections)\<close>. The pair
  \<^verbatim>\<open>(best_idx, best_dist)\<close> starts as \<^verbatim>\<open>(-1, float('inf'))\<close>, which is \<open>None\<close>
  here: the test \<^verbatim>\<open>dist < best_dist\<close> against infinity is true, and
  \<^verbatim>\<open>best_idx != -1\<close> holds exactly when the pair is \<open>Some\<close>. The argument \<open>j\<close> is
  the index that \<^verbatim>\<open>enumerate\<close> has reached.
\<close>

fun best_candidate ::
  "real \<Rightarrow> annotation \<Rightarrow> detection list \<Rightarrow> nat \<Rightarrow> (nat \<times> real) option \<Rightarrow> (nat \<times> real) option"
where
  "best_candidate threshold ann [] j best = best"
| "best_candidate threshold ann (det # rest) j best =
     (let dist = euclid det ann in
      if dist < threshold \<and> (case best of None \<Rightarrow> True | Some (best_idx, best_dist) \<Rightarrow> dist < best_dist)
      then best_candidate threshold ann rest (Suc j) (Some (j, dist))
      else best_candidate threshold ann rest (Suc j) best)"

text \<open>\<^verbatim>\<open>unmatched_detections.pop(best_idx)\<close>: the list without its element at \<open>best_idx\<close>.\<close>

definition pop_at :: "nat \<Rightarrow> 'a list \<Rightarrow> 'a list" where
  "pop_at i xs = take i xs @ drop (Suc i) xs"

text \<open>
  The state of the outer loop: \<^verbatim>\<open>matched\<close>, \<^verbatim>\<open>unmatched_detections\<close> and
  \<^verbatim>\<open>unmatched_annotations\<close>. One iteration of \<^verbatim>\<open>for ann in annotations\<close> is
  \<open>match_step\<close>. \<^verbatim>\<open>list.remove\<close> deletes the first element equal to \<^verbatim>\<open>ann\<close> and
  raises \<^verbatim>\<open>ValueError\<close> when there is none.
\<close>

type_synonym match_state = "match_entry list \<times> detection list \<times> annotation list"

fun match_step :: "real \<Rightarrow> annotation \<Rightarrow> match_state \<Rightarrow> py_error + match_state" where
  "match_step threshold ann (matched, unmatched_detections, unmatched_annotations) =
     (case best_candidate threshold ann unmatched_detections 0 None of
        None \<Rightarrow> Inr (matched, unmatched_detections, unmatched_annotations)
      | Some (best_idx, best_dist) \<Rightarrow>
          (let det = unmatched_detections ! best_idx;
               color_match = (ann_color ann = det_color det)
           in if ann \<in> set unmatched_annotations
              then Inr (matched @ [\<lparr>distance = best_dist, color_match = color_match\<rparr>],
                        pop_at best_idx unmatched_detections,
                        remove1 ann unmatched_annotations)
              else Inl (ValueError ''list.remove(x): x not in list'')))"

fun greedy_matching :: "real \<Rightarrow> annotation list \<Rightarrow> match_state \<Rightarrow> py_error + match_state" where
  "greedy_matching threshold [] st = Inr st"
| "greedy_matching threshold (ann # anns) st =
     (case match_step threshold ann st of
        Inl e \<Rightarrow> Inl e
      | Inr st' \<Rightarrow> greedy_matching threshold anns st')"

text \<open>
  The metrics computed after the loop. \<^verbatim>\<open>threshold\<close> is \<^verbatim>\<open>self.match_threshold\<close>.
  The only division without a guard is \<^verbatim>\<open>avg_pos_error / threshold\<close>; it raises
  \<^verbatim>\<open>ZeroDivisionError\<close> for a zero threshold (no detection is at a distance below
  zero, so \<^verbatim>\<open>matched\<close> is empty and \<^verbatim>\<open>avg_pos_error\<close> is the threshold itself).
\<close>

definition metrics :: "real \<Rightarrow> match_state \<Rightarrow> py_error + score" where
  "metrics threshold st =
     (case st of (matched, unmatched_detections, unmatched_annotations) \<Rightarrow>
        let tp = length matched;
            fp = length unmatched_detections;
            fn = length unmatched_annotations;
            precision = (if tp + fp > 0 then real tp / real (tp + fp) else 0);
            recall = (if tp + fn > 0 then real tp / real (tp + fn) else 0);
            f1 = (if precision + recall > 0
                  then 2 * (precision * recall) / (precision + recall) else 0);
            color_correct = length (filter color_match matched);
            color_accuracy = (if tp > 0 then real color_correct / real tp else 0);
            avg_pos_error = (if matched \<noteq> []
                             then sum_list (map distance matched) / real (length matched)
                             else threshold)
        in if threshold = 0 then Inl ZeroDivisionError
           else Inr \<lparr>precision = precision, recall = recall, f1 = f1,
                     color_accuracy = color_accuracy, avg_position_error = avg_pos_error,
                     true_positives = tp, false_positives = fp, false_negatives = fn,
                     combined_score =
                       (f1 * 50) + (color_accuracy * 40) - (avg_pos_error / threshold * 10)\<rparr>)"

definition calculate_score :: "real \<Rightarrow> detection list \<Rightarrow> annotation list \<Rightarrow> py_error + score" where
  "calculate_score threshold detections annotations =
     (case greedy_matching threshold annotations ([], detections, annotations) of
        Inl e \<Rightarrow> Inl e
      | Inr st \<Rightarrow> metrics threshold st)"

text \<open>
  The pairs the loop forms, in the order it forms them, together with the detections it
  leaves unmatched. The source keeps only the distance and the colour comparison of each
  pair; \<open>pairing\<close> follows the same control flow and keeps the annotation and the
  detection, so that statements about the assignment can be made.
\<close>

fun pairing ::
  "real \<Rightarrow> annotation list \<Rightarrow> detection list \<Rightarrow> (annotation \<times> detection) list \<times> detection list"
where
  "pairing threshold [] unmatched_detections = ([], unmatched_detections)"
| "pairing threshold (ann # anns) unmatched_detections =
     (case best_candidate threshold ann unmatched_detections 0 None of
        None \<Rightarrow> pairing threshold anns unmatched_detections
      | Some (best_idx, best_dist) \<Rightarrow>
          (case pairing threshold anns (pop_at best_idx unmatched_detections) of
             (ps, rest) \<Rightarrow> ((ann, unmatched_detections ! best_idx) # ps, rest)))"

definition entry_of :: "annotation \<times> detection \<Rightarrow> match_entry" where
  "entry_of p = \<lparr>distance = euclid (snd p) (fst p),
                 color_match = (ann_color (fst p) = det_color (snd p))\<rparr>"

text \<open>
  The selection rule in the words of the specification: the chosen detection is within the
  threshold, no detection of the list is nearer, and every detection before it in the list
  is strictly farther (a tie goes to the lowest index); nothing is chosen exactly when
  no detection is within the threshold.
\<close>

definition nearest_first :: "real \<Rightarrow> annotation \<Rightarrow> detection list \<Rightarrow> (nat \<times> real) option \<Rightarrow> bool" where
  "nearest_first thr a ds r =
     (case r of
        None \<Rightarrow> (\<forall>i < length ds. thr \<le> euclid (ds ! i) a)
      | Some (k, d) \<Rightarrow>
          k < length ds \<and> d = euclid (ds ! k) a \<and> d < thr \<and>
          (\<forall>i < length ds. d \<le> euclid (ds ! i) a) \<and>
          (\<forall>i < k. d < euclid (ds ! i) a))"

text \<open>
  Detections identical to the annotations: the same positions and colours, in the same
  order.
\<close>

definition identical :: "detection list \<Rightarrow> annotation list \<Rightarrow> bool" where
  "identical dets anns =
     list_all2 (\<lambda>d a. det_x d = ann_x a \<and> det_y d = ann_y a \<and> det_color d = ann_color a) dets anns"

section \<open>The parameter record\<close>

text \<open>
  The parameter dictionary (\<^verbatim>\<open>DetectorParams\<close> of \<^verbatim>\<open>models.py\<close>): \<^verbatim>\<open>dp\<close> is a
  float, every other numeric field an integer.
\<close>

record detector_params =
  algorithm :: string
  dp :: real
  minDist :: int
  param1 :: int
  param2 :: int
  minRadius :: int
  maxRadius :: int
  redH1Low :: int
  redH1High :: int
  redH2Low :: int
  redH2High :: int
  redSMin :: int
  redVMin :: int
  blueH1Low :: int
  blueH1High :: int
  blueH2Low :: int
  blueH2High :: int
  blueSMin :: int
  blueVMin :: int

text \<open>The example of \<^verbatim>\<open>DetectorParams.Config.json_schema_extra\<close>.\<close>

definition example_params :: detector_params where
  "example_params =
     \<lparr>algorithm = ''hough'', dp = 3 / 2, minDist = 30, param1 = 100, param2 = 30,
      minRadius = 10, maxRadius = 50,
      redH1Low = 0, redH1High = 10, redH2Low = 160, redH2High = 180, redSMin = 100,
      redVMin = 100,
      blueH1Low = 100, blueH1High = 130, blueH2Low = 0, blueH2High = 0, blueSMin = 100,
      blueVMin = 100\<rparr>"

section \<open>The colour classifier: \<^verbatim>\<open>ColorClassifier.is_red\<close> and \<^verbatim>\<open>is_blue\<close>\<close>

definition is_red :: "int \<Rightarrow> int \<Rightarrow> int \<Rightarrow> detector_params \<Rightarrow> bool" where
  "is_red h s v params =
     (let s_ok = (s \<ge> redSMin params);
          v_ok = (v \<ge> redVMin params);
          h_low_range = (redH1Low params \<le> h \<and> h \<le> redH1High params);
          h_high_range = (redH2Low params \<le> h \<and> h \<le> redH2High params)
      in (h_low_range \<or> h_high_range) \<and> s_ok \<and> v_ok)"

definition is_blue :: "int \<Rightarrow> int \<Rightarrow> int \<Rightarrow> detector_params \<Rightarrow> bool" where
  "is_blue h s v params =
     (let s_ok = (s \<ge> blueSMin params);
          v_ok = (v \<ge> blueVMin params);
          h_range1 = (blueH1Low params \<le> h \<and> h \<le> blueH1High params);
          h_range2 = (blueH2Low params \<noteq> blueH2High params \<and>
                      blueH2Low params \<le> h \<and> h \<le> blueH2High params)
      in (h_range1 \<or> h_range2) \<and> s_ok \<and> v_ok)"

section \<open>Evaluation on a dataset: \<^verbatim>\<open>evaluate_params\<close>\<close>

text \<open>
  One image of the dataset with its keys \<^verbatim>\<open>filename\<close>, \<^verbatim>\<open>poks\<close>, \<^verbatim>\<open>_image\<close> and
  \<^verbatim>\<open>_scale\<close>. The raster type is left open: \<^verbatim>\<open>detect_poks\<close> runs OpenCV on it and
  is a parameter \<open>detect\<close> of the model, a function from the raster, the parameters and
  the scale to the list of detections.
\<close>

record 'img image_data =
  img_filename :: string
  img_poks :: "annotation list"
  img_image :: 'img
  img_scale :: real

record eval_result =
  avg_score :: real
  per_image :: "(string \<times> score) list"

fun eval_loop ::
  "('img \<Rightarrow> detector_params \<Rightarrow> real \<Rightarrow> detection list) \<Rightarrow> real \<Rightarrow> detector_params \<Rightarrow>
   'img image_data list \<Rightarrow> real \<Rightarrow> (string \<times> score) list \<Rightarrow>
   py_error + (real \<times> (string \<times> score) list)"
where
  "eval_loop detect threshold params [] total_score results = Inr (total_score, results)"
| "eval_loop detect threshold params (img_data # rest) total_score results =
     (let detections = detect (img_image img_data) params (img_scale img_data) in
      case calculate_score threshold detections (img_poks img_data) of
        Inl e \<Rightarrow> Inl e
      | Inr sc \<Rightarrow>
          eval_loop detect threshold params rest (total_score + combined_score sc)
            (results @ [(img_filename img_data, sc)]))"

definition evaluate_params ::
  "('img \<Rightarrow> detector_params \<Rightarrow> real \<Rightarrow> detection list) \<Rightarrow> real \<Rightarrow> detector_params \<Rightarrow>
   'img image_data list \<Rightarrow> py_error + eval_result"
where
  "evaluate_params detect threshold params dataset =
     (case eval_loop detect threshold params dataset 0 [] of
        Inl e \<Rightarrow> Inl e
      | Inr (total_score, results) \<Rightarrow>
          if dataset = [] then Inl ZeroDivisionError
          else Inr \<lparr>avg_score = total_score / real (length dataset), per_image = results\<rparr>)"

section \<open>The objective of the global search and the tracked best parameters\<close>

text \<open>
  The attributes \<^verbatim>\<open>best_params\<close>/\<^verbatim>\<open>best_score\<close>, \<^verbatim>\<open>best_detection_params\<close>/
  \<^verbatim>\<open>best_detection_score\<close> and \<^verbatim>\<open>best_color_params\<close>/\<^verbatim>\<open>best_color_score\<close> of the
  calibrator. Each pair starts as \<^verbatim>\<open>(None, float('-inf'))\<close> and is only ever assigned
  together, so a pair is an option: \<open>None\<close> is the initial pair, and a score compared
  with minus infinity is above it.
\<close>

record tracker =
  self_best :: "(detector_params \<times> real) option"
  self_best_detection :: "(detector_params \<times> real) option"
  self_best_color :: "(detector_params \<times> real) option"

definition init_tracker :: tracker where
  "init_tracker = \<lparr>self_best = None, self_best_detection = None, self_best_color = None\<rparr>"

definition beats :: "real \<Rightarrow> (detector_params \<times> real) option \<Rightarrow> bool" where
  "beats x best = (case best of None \<Rightarrow> True | Some (p, best_score) \<Rightarrow> x > best_score)"

definition np_mean :: "real list \<Rightarrow> real" where
  "np_mean xs = sum_list xs / real (length xs)"

text \<open>
  \<^verbatim>\<open>objective_function\<close>: the point of the search space is given by field names, and
  \<open>params_of_values\<close> is the dictionary built from it, with the second blue hue range
  fixed to 0. The means are over the images of a non-empty training set (an empty one
  fails in \<open>evaluate_params\<close>). The function returns the negated score and the updated
  tracker.
\<close>

definition params_of_values :: "detector_params \<Rightarrow> detector_params" where
  "params_of_values param_values =
     param_values\<lparr>algorithm := ''hough'', blueH2Low := 0, blueH2High := 0\<rparr>"

definition objective_function ::
  "('img \<Rightarrow> detector_params \<Rightarrow> real \<Rightarrow> detection list) \<Rightarrow> real \<Rightarrow> 'img image_data list \<Rightarrow>
   detector_params \<Rightarrow> tracker \<Rightarrow> py_error + (real \<times> tracker)"
where
  "objective_function detect threshold train_set param_values tr =
     (let params = params_of_values param_values in
      case evaluate_params detect threshold params train_set of
        Inl e \<Rightarrow> Inl e
      | Inr result \<Rightarrow>
          (let avg_f1 = np_mean (map (\<lambda>r. f1 (snd r)) (per_image result));
               avg_color = np_mean (map (\<lambda>r. color_accuracy (snd r)) (per_image result));
               avg_precision = np_mean (map (\<lambda>r. precision (snd r)) (per_image result));
               avg_recall = np_mean (map (\<lambda>r. recall (snd r)) (per_image result));
               detection_score = (avg_f1 * 70) + (avg_precision * 15) + (avg_recall * 15);
               color_score = avg_color * 100;
               tr1 = (if beats (avg_score result) (self_best tr)
                      then tr\<lparr>self_best := Some (params, avg_score result)\<rparr> else tr);
               tr2 = (if beats detection_score (self_best_detection tr1)
                      then tr1\<lparr>self_best_detection := Some (params, detection_score)\<rparr> else tr1);
               tr3 = (if beats color_score (self_best_color tr2)
                      then tr2\<lparr>self_best_color := Some (params, color_score)\<rparr> else tr2)
           in Inr (- avg_score result, tr3)))"

text \<open>
  The global search (\<^verbatim>\<open>gp_minimize\<close> or \<^verbatim>\<open>forest_minimize\<close>) is external; what the
  calibrator sees of it is the sequence of points at which it calls the objective. The
  evaluations completed before a keyboard interrupt are that sequence, run in order.
\<close>

fun completed_evaluations ::
  "('img \<Rightarrow> detector_params \<Rightarrow> real \<Rightarrow> detection list) \<Rightarrow> real \<Rightarrow> 'img image_data list \<Rightarrow>
   detector_params list \<Rightarrow> tracker \<Rightarrow> py_error + tracker"
where
  "completed_evaluations detect threshold train_set [] tr = Inr tr"
| "completed_evaluations detect threshold train_set (x # xs) tr =
     (case objective_function detect threshold train_set x tr of
        Inl e \<Rightarrow> Inl e
      | Inr (y, tr') \<Rightarrow> completed_evaluations detect threshold train_set xs tr')"

text \<open>
  The branch \<^verbatim>\<open>if interrupted:\<close> of \<^verbatim>\<open>optimize\<close>: it raises when no parameters were
  tracked and otherwise continues with the tracked best parameters, their score and the
  source label.
\<close>

definition interrupted_fallback :: "tracker \<Rightarrow> py_error + (detector_params \<times> real \<times> string)" where
  "interrupted_fallback tr =
     (case self_best tr of
        None \<Rightarrow> Inl (ValueError ''No parameters found - interrupted too early'')
      | Some (best_params, best_score) \<Rightarrow>
          Inr (best_params, best_score, ''Interrupted - Tracked Best''))"

section \<open>Rescaling to the original resolution\<close>






text \<open>Python's \<^verbatim>\<open>int(x)\<close> on a float: truncation towards zero.\<close>

definition py_int :: "real \<Rightarrow> int" where
  "py_int x = (if 0 \<le> x then \<lfloor>x\<rfloor> else \<lceil>x\<rceil>)"



section \<open>Local refinement: \<^verbatim>\<open>neighbor_params\<close> and the hill climbing loop\<close>

text \<open>
  The sixteen names of \<^verbatim>\<open>param_names\<close>, the table \<^verbatim>\<open>step_sizes\<close> and the bounds
  of \<^verbatim>\<open>self.param_space\<close>.
\<close>

datatype param_name =
  DP | MinDist | Param1 | Param2 | MinRadius | MaxRadius
  | RedH1Low | RedH1High | RedH2Low | RedH2High | RedSMin | RedVMin
  | BlueH1Low | BlueH1High | BlueSMin | BlueVMin

definition param_names :: "param_name list" where
  "param_names = [DP, MinDist, Param1, Param2, MinRadius, MaxRadius,
                  RedH1Low, RedH1High, RedH2Low, RedH2High, RedSMin, RedVMin,
                  BlueH1Low, BlueH1High, BlueSMin, BlueVMin]"

fun step_sizes :: "param_name \<Rightarrow> real" where
  "step_sizes DP = 1 / 10"
| "step_sizes MinDist = 5"
| "step_sizes Param1 = 10"
| "step_sizes Param2 = 5"
| "step_sizes MinRadius = 5"
| "step_sizes MaxRadius = 5"
| "step_sizes RedH1Low = 1"
| "step_sizes RedH1High = 1"
| "step_sizes RedH2Low = 1"
| "step_sizes RedH2High = 1"
| "step_sizes RedSMin = 10"
| "step_sizes RedVMin = 10"
| "step_sizes BlueH1Low = 1"
| "step_sizes BlueH1High = 1"
| "step_sizes BlueSMin = 10"
| "step_sizes BlueVMin = 10"

fun space_low :: "param_name \<Rightarrow> real" where
  "space_low DP = 1"
| "space_low MinDist = 10"
| "space_low Param1 = 30"
| "space_low Param2 = 10"
| "space_low MinRadius = 5"
| "space_low MaxRadius = 20"
| "space_low RedH1Low = 0"
| "space_low RedH1High = 5"
| "space_low RedH2Low = 150"
| "space_low RedH2High = 170"
| "space_low RedSMin = 50"
| "space_low RedVMin = 50"
| "space_low BlueH1Low = 90"
| "space_low BlueH1High = 115"
| "space_low BlueSMin = 50"
| "space_low BlueVMin = 50"

fun space_high :: "param_name \<Rightarrow> real" where
  "space_high DP = 5 / 2"
| "space_high MinDist = 80"
| "space_high Param1 = 200"
| "space_high Param2 = 60"
| "space_high MinRadius = 50"
| "space_high MaxRadius = 100"
| "space_high RedH1Low = 10"
| "space_high RedH1High = 20"
| "space_high RedH2Low = 175"
| "space_high RedH2High = 180"
| "space_high RedSMin = 180"
| "space_high RedVMin = 180"
| "space_high BlueH1Low = 115"
| "space_high BlueH1High = 140"
| "space_high BlueSMin = 180"
| "space_high BlueVMin = 180"

text \<open>\<^verbatim>\<open>params[param_name]\<close>, read as a number.\<close>

fun get_param :: "param_name \<Rightarrow> detector_params \<Rightarrow> real" where
  "get_param DP p = dp p"
| "get_param MinDist p = real_of_int (minDist p)"
| "get_param Param1 p = real_of_int (param1 p)"
| "get_param Param2 p = real_of_int (param2 p)"
| "get_param MinRadius p = real_of_int (minRadius p)"
| "get_param MaxRadius p = real_of_int (maxRadius p)"
| "get_param RedH1Low p = real_of_int (redH1Low p)"
| "get_param RedH1High p = real_of_int (redH1High p)"
| "get_param RedH2Low p = real_of_int (redH2Low p)"
| "get_param RedH2High p = real_of_int (redH2High p)"
| "get_param RedSMin p = real_of_int (redSMin p)"
| "get_param RedVMin p = real_of_int (redVMin p)"
| "get_param BlueH1Low p = real_of_int (blueH1Low p)"
| "get_param BlueH1High p = real_of_int (blueH1High p)"
| "get_param BlueSMin p = real_of_int (blueSMin p)"
| "get_param BlueVMin p = real_of_int (blueVMin p)"

text \<open>
  \<^verbatim>\<open>params[param_name] = type(current_val)(new_val)\<close>: the float field keeps the
  float, an integer field converts with \<^verbatim>\<open>int\<close>.
\<close>

fun set_param :: "param_name \<Rightarrow> real \<Rightarrow> detector_params \<Rightarrow> detector_params" where
  "set_param DP new_val p = p\<lparr>dp := new_val\<rparr>"
| "set_param MinDist new_val p = p\<lparr>minDist := py_int new_val\<rparr>"
| "set_param Param1 new_val p = p\<lparr>param1 := py_int new_val\<rparr>"
| "set_param Param2 new_val p = p\<lparr>param2 := py_int new_val\<rparr>"
| "set_param MinRadius new_val p = p\<lparr>minRadius := py_int new_val\<rparr>"
| "set_param MaxRadius new_val p = p\<lparr>maxRadius := py_int new_val\<rparr>"
| "set_param RedH1Low new_val p = p\<lparr>redH1Low := py_int new_val\<rparr>"
| "set_param RedH1High new_val p = p\<lparr>redH1High := py_int new_val\<rparr>"
| "set_param RedH2Low new_val p = p\<lparr>redH2Low := py_int new_val\<rparr>"
| "set_param RedH2High new_val p = p\<lparr>redH2High := py_int new_val\<rparr>"
| "set_param RedSMin new_val p = p\<lparr>redSMin := py_int new_val\<rparr>"
| "set_param RedVMin new_val p = p\<lparr>redVMin := py_int new_val\<rparr>"
| "set_param BlueH1Low new_val p = p\<lparr>blueH1Low := py_int new_val\<rparr>"
| "set_param BlueH1High new_val p = p\<lparr>blueH1High := py_int new_val\<rparr>"
| "set_param BlueSMin new_val p = p\<lparr>blueSMin := py_int new_val\<rparr>"
| "set_param BlueVMin new_val p = p\<lparr>blueVMin := py_int new_val\<rparr>"

text \<open>\<^verbatim>\<open>np.clip(x, low, high)\<close>\<close>

definition np_clip :: "real \<Rightarrow> real \<Rightarrow> real \<Rightarrow> real" where
  "np_clip x low high = min (max x low) high"

text \<open>
  The random generator of NumPy is global state outside the script. The model threads a
  generator state of an open type through the calls; \<open>draw g k\<close> gives a number and the
  next state, and the number is reduced below \<open>k\<close>. \<^verbatim>\<open>np.random.randint(1, 4)\<close> is
  \<open>1 + draw 3\<close>, \<^verbatim>\<open>np.random.choice(xs)\<close> is the element of \<open>xs\<close> at \<open>draw (len xs)\<close>.
\<close>

definition draw_below :: "('g \<Rightarrow> nat \<Rightarrow> nat \<times> 'g) \<Rightarrow> 'g \<Rightarrow> nat \<Rightarrow> nat \<times> 'g" where
  "draw_below draw g k = (fst (draw g k) mod k, snd (draw g k))"

text \<open>One pass of the loop \<^verbatim>\<open>for _ in range(num_mutations)\<close>.\<close>

definition mutate_once ::
  "('g \<Rightarrow> nat \<Rightarrow> nat \<times> 'g) \<Rightarrow> detector_params \<Rightarrow> 'g \<Rightarrow> detector_params \<times> 'g"
where
  "mutate_once draw params g =
     (let (i, g1) = draw_below draw g (length param_names);
          param_name = param_names ! i;
          current_val = get_param param_name params;
          step = step_sizes param_name;
          (si, g2) = draw_below draw g1 2;
          (mi, g3) = draw_below draw g2 2;
          step_change = [-1, 1] ! si * step * (1 + real mi);
          new_val = np_clip (current_val + step_change)
                      (space_low param_name) (space_high param_name)
      in (set_param param_name new_val params, g3))"

fun mutate_loop ::
  "('g \<Rightarrow> nat \<Rightarrow> nat \<times> 'g) \<Rightarrow> nat \<Rightarrow> detector_params \<Rightarrow> 'g \<Rightarrow> detector_params \<times> 'g"
where
  "mutate_loop draw 0 params g = (params, g)"
| "mutate_loop draw (Suc n) params g =
     (case mutate_once draw params g of (params', g') \<Rightarrow> mutate_loop draw n params' g')"

definition neighbor_params ::
  "('g \<Rightarrow> nat \<Rightarrow> nat \<times> 'g) \<Rightarrow> detector_params \<Rightarrow> 'g \<Rightarrow> detector_params \<times> 'g"
where
  "neighbor_params draw base_params g =
     (let (m, g1) = draw_below draw g 3;
          num_mutations = 1 + m
      in mutate_loop draw num_mutations base_params g1)"

text \<open>\<^verbatim>\<open>sub in s\<close> on strings.\<close>

fun contains :: "string \<Rightarrow> string \<Rightarrow> bool" where
  "contains sub [] = (sub = [])"
| "contains sub (c # cs) = (take (length sub) (c # cs) = sub \<or> contains sub cs)"

text \<open>
  The local variables of the hill climbing loop of \<^verbatim>\<open>optimize\<close>, with the generator
  state.
\<close>

record 'g search_state =
  current_params :: detector_params
  current_score :: real
  no_improvement_count :: nat
  improvements :: nat
  best_params_raw :: detector_params
  best_score :: real
  best_source :: string
  rng :: 'g

text \<open>
  One iteration of \<^verbatim>\<open>for i in range(local_iterations)\<close>. The parameter \<open>evaluate\<close> is
  \<^verbatim>\<open>evaluate_params(neighbor, self.train_set)['avg_score']\<close>.
\<close>

definition local_step ::
  "('g \<Rightarrow> nat \<Rightarrow> nat \<times> 'g) \<Rightarrow> (detector_params \<Rightarrow> py_error + real) \<Rightarrow>
   'g search_state \<Rightarrow> py_error + 'g search_state"
where
  "local_step draw evaluate st =
     (case neighbor_params draw (current_params st) (rng st) of
        (neighbor, g1) \<Rightarrow>
          (case evaluate neighbor of
             Inl e \<Rightarrow> Inl e
           | Inr result \<Rightarrow>
               if result > current_score st
               then
                 (let st1 = st\<lparr>current_score := result, current_params := neighbor,
                               no_improvement_count := 0,
                               improvements := improvements st + 1, rng := g1\<rparr>
                  in if result > best_score st
                     then Inr (st1\<lparr>best_score := result, best_params_raw := neighbor,
                                   best_source :=
                                     (if \<not> contains ''+ Local Search'' (best_source st)
                                      then best_source st @ '' + Local Search''
                                      else best_source st)\<rparr>)
                     else Inr st1)
               else
                 (let c = no_improvement_count st + 1 in
                  if c > 10
                  then (case neighbor_params draw (best_params_raw st) g1 of
                          (jump, g2) \<Rightarrow>
                            Inr (st\<lparr>current_params := jump, current_score := best_score st,
                                    no_improvement_count := 0, rng := g2\<rparr>))
                  else Inr (st\<lparr>no_improvement_count := c, rng := g1\<rparr>))))"

fun local_search ::
  "('g \<Rightarrow> nat \<Rightarrow> nat \<times> 'g) \<Rightarrow> (detector_params \<Rightarrow> py_error + real) \<Rightarrow> nat \<Rightarrow>
   'g search_state \<Rightarrow> py_error + 'g search_state"
where
  "local_search draw evaluate 0 st = Inr st"
| "local_search draw evaluate (Suc n) st =
     (case local_step draw evaluate st of
        Inl e \<Rightarrow> Inl e
      | Inr st' \<Rightarrow> local_search draw evaluate n st')"

text \<open>
  Phase 3 of \<^verbatim>\<open>optimize\<close>: the loop runs when \<^verbatim>\<open>local_iterations > 0\<close>, from the
  parameters, score and source label of the previous phase, and leaves the best
  parameters, their score and the label. The second test of the guard,
  \<^verbatim>\<open>best_params_raw\<close> being set, holds on both paths into this phase: the interrupt
  branch has raised otherwise, and the candidate selection always has the optimizer's
  own point.
\<close>

definition local_refinement ::
  "('g \<Rightarrow> nat \<Rightarrow> nat \<times> 'g) \<Rightarrow> (detector_params \<Rightarrow> py_error + real) \<Rightarrow> int \<Rightarrow>
   detector_params \<Rightarrow> real \<Rightarrow> string \<Rightarrow> 'g \<Rightarrow>
   py_error + (detector_params \<times> real \<times> string \<times> 'g)"
where
  "local_refinement draw evaluate local_iterations params score source g =
     (if local_iterations > 0
      then (case local_search draw evaluate (nat local_iterations)
                   \<lparr>current_params = params, current_score = score,
                    no_improvement_count = 0, improvements = 0,
                    best_params_raw = params, best_score = score, best_source = source,
                    rng = g\<rparr> of
              Inl e \<Rightarrow> Inl e
            | Inr st \<Rightarrow> Inr (best_params_raw st, best_score st, best_source st, rng st))
      else Inr (params, score, source, g))"

section \<open>Concrete inputs\<close>

text \<open>
  Stand-ins for the external parts, used where a statement is evaluated at a concrete
  input: a generator that always draws 0, an evaluation with the constant score 0, an
  evaluation that prefers a small \<^verbatim>\<open>dp\<close>, the mean of the scales of a training
  partition of one image (that image's scale), and a detector that reports one red circle
  at the origin whatever the image.
\<close>

definition zero_draw :: "unit \<Rightarrow> nat \<Rightarrow> nat \<times> unit" where
  "zero_draw g k = (0, g)"

definition flat_score :: "detector_params \<Rightarrow> py_error + real" where
  "flat_score params = Inr 0"

definition low_dp_score :: "detector_params \<Rightarrow> py_error + real" where
  "low_dp_score params = Inr (- dp params)"


definition origin_detect :: "unit \<Rightarrow> detector_params \<Rightarrow> real \<Rightarrow> detection list" where
  "origin_detect raster params scale =
     [\<lparr>det_x = 0, det_y = 0, det_radius = 20, det_color = ''red''\<rparr>]"

section \<open>Properties of the scorer\<close>

subsection \<open>The inner loop selects the nearest detection, the first one on a tie\<close>

lemma best_candidate_append:
  "best_candidate thr a (xs @ ys) j b =
     best_candidate thr a ys (j + length xs) (best_candidate thr a xs j b)"
  by (induction xs arbitrary: j b) (simp_all add: Let_def)

lemma best_candidate_snoc:
  "best_candidate thr a (xs @ [d]) 0 None =
     (let b = best_candidate thr a xs 0 None; dist = euclid d a in
      if dist < thr \<and> (case b of None \<Rightarrow> True | Some (bi, bd) \<Rightarrow> dist < bd)
      then Some (length xs, dist) else b)"
  by (simp add: best_candidate_append Let_def)

lemma best_candidate_nearest:
  "nearest_first thr a ds (best_candidate thr a ds 0 None)"
proof (induction ds rule: rev_induct)
  case Nil
  show ?case by (simp add: nearest_first_def)
next
  case (snoc d ds)
  show ?case
  proof (cases "best_candidate thr a ds 0 None")
    case None
    with snoc show ?thesis
      by (auto simp: best_candidate_snoc nearest_first_def Let_def nth_append less_Suc_eq)
  next
    case (Some p)
    obtain k e where p: "p = (k, e)" by (cases p)
    from snoc Some p show ?thesis
      by (auto simp: best_candidate_snoc nearest_first_def Let_def nth_append less_Suc_eq)
  qed
qed

lemma best_candidate_SomeD:
  assumes "best_candidate thr a ds 0 None = Some (k, d)"
  shows "k < length ds" and "d = euclid (ds ! k) a" and "d < thr"
    and "\<And>i. i < length ds \<Longrightarrow> d \<le> euclid (ds ! i) a"
    and "\<And>i. i < k \<Longrightarrow> d < euclid (ds ! i) a"
  using best_candidate_nearest [of thr a ds] assms by (auto simp: nearest_first_def)

lemma best_candidate_NoneD:
  assumes "best_candidate thr a ds 0 None = None"
  shows "\<And>i. i < length ds \<Longrightarrow> thr \<le> euclid (ds ! i) a"
  using best_candidate_nearest [of thr a ds] assms by (simp_all add: nearest_first_def)

lemma subset_add_mset_right: "A \<subseteq># B \<Longrightarrow> A \<subseteq># add_mset a B"
  by (meson multi_psub_of_add_self subset_mset.le_less subset_mset.le_less_trans)

lemma subset_add_mset_left: "add_mset a A \<subseteq># B \<Longrightarrow> A \<subseteq># B"
  by (metis multi_psub_of_add_self subset_mset.le_less subset_mset.le_sup_iff subset_mset.orderE)

lemma mset_pop_at: "i < length xs \<Longrightarrow> add_mset (xs ! i) (mset (pop_at i xs)) = mset xs"
proof -
  assume i: "i < length xs"
  have "xs = take i xs @ xs ! i # drop (Suc i) xs" using i by (rule id_take_nth_drop)
  then have "mset xs = mset (take i xs @ xs ! i # drop (Suc i) xs)" by simp
  then show ?thesis by (simp add: pop_at_def)
qed

lemma length_pop_at: "i < length xs \<Longrightarrow> length (pop_at i xs) = length xs - 1"
  by (auto simp: pop_at_def)

lemma pairing_detections:
  "pairing thr anns ud = (ps, rest) \<Longrightarrow> mset (map snd ps) + mset rest = mset ud"
proof (induction anns arbitrary: ud ps rest)
  case Nil
  then show ?case by simp
next
  case (Cons a anns)
  show ?case
  proof (cases "best_candidate thr a ud 0 None")
    case None
    with Cons show ?thesis by simp
  next
    case (Some p)
    obtain k d where p: "p = (k, d)" by (cases p)
    obtain ps' rest' where r: "pairing thr anns (pop_at k ud) = (ps', rest')" by (cases "pairing thr anns (pop_at k ud)")
    from Cons.prems Some p r have eq: "ps = (a, ud ! k) # ps'" "rest = rest'" by simp_all
    from Cons.IH [OF r] have "mset (map snd ps') + mset rest' = mset (pop_at k ud)" .
    moreover have "k < length ud" using Some p best_candidate_SomeD(1) by simp
    ultimately show ?thesis using eq mset_pop_at [of k ud] by simp
  qed
qed

lemma pairing_annotations:
  "pairing thr anns ud = (ps, rest) \<Longrightarrow> mset (map fst ps) \<subseteq># mset anns"
proof (induction anns arbitrary: ud ps rest)
  case Nil
  then show ?case by simp
next
  case (Cons a anns)
  show ?case
  proof (cases "best_candidate thr a ud 0 None")
    case None
    with Cons.prems have "pairing thr anns ud = (ps, rest)" by simp
    from Cons.IH [OF this] show ?thesis
      by (simp add: subset_add_mset_right)
  next
    case (Some p)
    obtain k d where p: "p = (k, d)" by (cases p)
    obtain ps' rest' where r: "pairing thr anns (pop_at k ud) = (ps', rest')" by (cases "pairing thr anns (pop_at k ud)")
    from Cons.prems Some p r have eq: "ps = (a, ud ! k) # ps'" by simp
    from Cons.IH [OF r] show ?thesis using eq by simp
  qed
qed


lemma mset_fold_remove1:
  "mset xs \<subseteq># mset ua \<Longrightarrow> mset (fold remove1 xs ua) = mset ua - mset xs"
proof (induction xs arbitrary: ua)
  case Nil
  then show ?case by simp
next
  case (Cons x xs)
  from Cons.prems have "mset xs \<subseteq># mset (remove1 x ua)"
    by (simp add: insert_subset_eq_iff)
  from Cons.IH [OF this] show ?case by simp
qed

lemma greedy_matching_pairing:
  "mset anns \<subseteq># mset ua \<Longrightarrow> pairing thr anns ud = (ps, rest) \<Longrightarrow>
   greedy_matching thr anns (m, ud, ua) =
     Inr (m @ map entry_of ps, rest, fold remove1 (map fst ps) ua)"
proof (induction anns arbitrary: m ud ua ps rest)
  case Nil
  then show ?case by simp
next
  case (Cons a anns)
  from Cons.prems(1) have a_in: "a \<in> set ua" and sub': "mset anns \<subseteq># mset (remove1 a ua)"
    by (simp_all add: insert_subset_eq_iff)
  from Cons.prems(1) have sub: "mset anns \<subseteq># mset ua"
    by (simp add: subset_add_mset_left)
  show ?case
  proof (cases "best_candidate thr a ud 0 None")
    case None
    with Cons.prems have "pairing thr anns ud = (ps, rest)" by simp
    from Cons.IH [OF sub this] None show ?thesis by simp
  next
    case (Some p)
    obtain k d where p: "p = (k, d)" by (cases p)
    obtain ps' rest' where r: "pairing thr anns (pop_at k ud) = (ps', rest')" by (cases "pairing thr anns (pop_at k ud)")
    from Cons.prems(2) Some p r have eq: "ps = (a, ud ! k) # ps'" "rest = rest'" by simp_all
    have d: "d = euclid (ud ! k) a" using best_candidate_SomeD(2) Some p by simp
    from Cons.IH [OF sub' r] Some p a_in eq d show ?thesis
      by (simp add: entry_of_def)
  qed
qed

subsection \<open>The result in terms of the pairs\<close>

lemma calculate_score_pairing:
  assumes "pairing thr anns dets = (ps, rest)"
  shows "calculate_score thr dets anns =
           metrics thr (map entry_of ps, rest, fold remove1 (map fst ps) anns)"
  using greedy_matching_pairing [of anns anns thr dets ps rest "[]"] assms
  by (simp add: calculate_score_def)

lemma pairing_length_detections:
  "pairing thr anns ud = (ps, rest) \<Longrightarrow> length ps + length rest = length ud"
proof -
  assume "pairing thr anns ud = (ps, rest)"
  then have "size (mset (map snd ps) + mset rest) = size (mset ud)"
    by (simp only: pairing_detections)
  then show ?thesis by simp
qed

lemma pairing_length_annotations:
  assumes "pairing thr anns ud = (ps, rest)"
  shows "length (fold remove1 (map fst ps) anns) + length ps = length anns"
proof -
  have sub: "mset (map fst ps) \<subseteq># mset anns" using assms by (rule pairing_annotations)
  then have "size (mset (fold remove1 (map fst ps) anns)) = size (mset anns) - size (mset (map fst ps))"
    by (simp add: mset_fold_remove1 size_Diff_submset)
  moreover have "size (mset (map fst ps)) \<le> size (mset anns)" using sub by (rule size_mset_mono)
  ultimately show ?thesis by simp
qed

lemma metrics_counts:
  "metrics thr (m, ud, ua) = Inr r \<Longrightarrow>
     true_positives r = length m \<and> false_positives r = length ud \<and> false_negatives r = length ua"
  by (auto simp: metrics_def Let_def split: if_splits)

lemma metrics_total: "thr \<noteq> 0 \<Longrightarrow> \<exists>r. metrics thr st = Inr r"
  by (cases st) (simp add: metrics_def Let_def)

text \<open>
  Claim C9. Whenever the scorer returns, the true positives and the false negatives add up
  to the number of annotations, the true positives and the false positives add up to the
  number of detections, and the matched detections together with the unmatched ones are
  the detection list as a multiset: every detection enters at most one pair. The scorer
  returns for every threshold other than zero.
\<close>

theorem counting_invariant:
  "(thr \<noteq> 0 \<longrightarrow> (\<exists>r. calculate_score thr dets anns = Inr r)) \<and>
   (\<forall>r. calculate_score thr dets anns = Inr r \<longrightarrow>
      true_positives r + false_negatives r = length anns \<and>
      true_positives r + false_positives r = length dets \<and>
      true_positives r = length (fst (pairing thr anns dets)) \<and>
      false_positives r = length (snd (pairing thr anns dets))) \<and>
   mset (map snd (fst (pairing thr anns dets))) + mset (snd (pairing thr anns dets)) = mset dets"
proof -
  obtain ps rest where p: "pairing thr anns dets = (ps, rest)" by (cases "pairing thr anns dets")
  note cs = calculate_score_pairing [OF p]
  have a: "thr \<noteq> 0 \<longrightarrow> (\<exists>r. calculate_score thr dets anns = Inr r)"
    using metrics_total cs by simp
  have b: "true_positives r + false_negatives r = length anns \<and>
      true_positives r + false_positives r = length dets \<and>
      true_positives r = length ps \<and> false_positives r = length rest"
    if "calculate_score thr dets anns = Inr r" for r
  proof -
    from that cs have "metrics thr (map entry_of ps, rest, fold remove1 (map fst ps) anns) = Inr r"
      by simp
    from metrics_counts [OF this] pairing_length_detections [OF p] pairing_length_annotations [OF p]
    show ?thesis by simp
  qed
  have c: "mset (map snd ps) + mset rest = mset dets" using p by (rule pairing_detections)
  from a b c show ?thesis unfolding p fst_conv snd_conv by blast
qed

theorem counting_invariant_witness:
  "\<exists>r. calculate_score 50
         [\<lparr>det_x = 0, det_y = 0, det_radius = 10, det_color = ''red''\<rparr>]
         [\<lparr>ann_x = 0, ann_y = 0, ann_color = ''red''\<rparr>,
          \<lparr>ann_x = 300, ann_y = 400, ann_color = ''blue''\<rparr>] = Inr r \<and>
       true_positives r + false_negatives r = 2 \<and>
       true_positives r + false_positives r = 1"
  using counting_invariant [of 50
         "[\<lparr>det_x = 0, det_y = 0, det_radius = 10, det_color = ''red''\<rparr>]"
         "[\<lparr>ann_x = 0, ann_y = 0, ann_color = ''red''\<rparr>,
          \<lparr>ann_x = 300, ann_y = 400, ann_color = ''blue''\<rparr>]"]
  by auto

subsection \<open>Detections identical to the annotations\<close>

lemma euclid_nonneg: "0 \<le> euclid d a"
  by (simp add: euclid_def)

lemma best_candidate_zero_stays:
  "best_candidate thr a ds j (Some (k, 0)) = Some (k, 0)"
proof (induction ds arbitrary: j)
  case Nil
  show ?case by simp
next
  case (Cons d ds)
  have "\<not> euclid d a < 0" using euclid_nonneg [of d a] by simp
  with Cons show ?case by (simp add: Let_def)
qed

lemma best_candidate_exact:
  assumes "0 < thr" and "euclid d a = 0"
  shows "best_candidate thr a (d # ds) 0 None = Some (0, 0)"
  using assms by (simp add: Let_def best_candidate_zero_stays)

lemma pairing_identical:
  assumes "0 < thr" and "identical dets anns"
  shows "pairing thr anns dets = (zip anns dets, [])"
  using assms(2) unfolding identical_def
proof (induction dets anns rule: list_all2_induct)
  case Nil
  show ?case by simp
next
  case (Cons d dets a anns)
  have "euclid d a = 0" using Cons.hyps(1) by (simp add: euclid_def)
  from best_candidate_exact [OF assms(1) this] Cons.IH show ?case
    by (simp add: pop_at_def)
qed

lemma fold_remove1_self: "fold remove1 xs xs = []"
proof -
  have "mset (fold remove1 xs xs) = mset xs - mset xs"
    by (rule mset_fold_remove1) simp
  then show ?thesis by simp
qed

lemma entries_identical:
  assumes "identical dets anns"
  shows "map distance (map entry_of (zip anns dets)) = replicate (length anns) 0
       \<and> filter color_match (map entry_of (zip anns dets)) = map entry_of (zip anns dets)"
  using assms unfolding identical_def
  by (induction dets anns rule: list_all2_induct) (simp_all add: entry_of_def euclid_def)

lemma sum_list_replicate_zero: "sum_list (replicate n (0::real)) = 0"
  by (induction n) simp_all

lemma metrics_formula:
  assumes "metrics thr st = Inr r"
  shows "combined_score r = 50 * f1 r + 40 * color_accuracy r - 10 * (avg_position_error r / thr)"
proof -
  obtain m ud ua where st: "st = (m, ud, ua)" by (cases st)
  have "thr \<noteq> 0" using assms by (cases "thr = 0") (simp_all add: metrics_def Let_def st)
  then show ?thesis using assms by (auto simp: metrics_def Let_def st)
qed

lemma metrics_perfect:
  assumes "thr \<noteq> 0" and "m \<noteq> []"
    and "map distance m = replicate (length m) 0" and "filter color_match m = m"
  shows "metrics thr (m, [], []) =
           Inr \<lparr>precision = 1, recall = 1, f1 = 1, color_accuracy = 1, avg_position_error = 0,
                true_positives = length m, false_positives = 0, false_negatives = 0,
                combined_score = 90\<rparr>"
proof -
  have s: "sum_list (map distance m) = 0"
    unfolding assms(3) by (rule sum_list_replicate_zero)
  have n: "0 < length m" using assms(2) by simp
  show ?thesis using assms(1,2) n by (simp add: metrics_def Let_def s assms(4))
qed

text \<open>
  Claim C1, amended. For every threshold above zero and every non-empty annotation list, a
  detection list identical to the annotations gives precision, recall, F1 and colour
  accuracy 1, mean positional error 0 and combined score 90, and the combined score is
  50 F1 + 40 colour accuracy - 10 (mean positional error / threshold).
\<close>

theorem identical_detections_score:
  assumes "0 < thr" and "anns \<noteq> []" and "identical dets anns"
  shows "\<exists>r. calculate_score thr dets anns = Inr r \<and>
           precision r = 1 \<and> recall r = 1 \<and> f1 r = 1 \<and> color_accuracy r = 1 \<and>
           avg_position_error r = 0 \<and> combined_score r = 90 \<and>
           combined_score r =
             50 * f1 r + 40 * color_accuracy r - 10 * (avg_position_error r / thr)"
proof -
  have len: "length dets = length anns"
    using assms(3) by (simp add: identical_def list_all2_lengthD)
  have m1: "map fst (zip anns dets) = anns" using len by simp
  have ne: "map entry_of (zip anns dets) \<noteq> []" using assms(2) len by (cases anns; cases dets) simp_all
  have l: "length (map entry_of (zip anns dets)) = length anns" using len by simp
  note e = entries_identical [OF assms(3)]
  have thr: "thr \<noteq> 0" using assms(1) by simp
  have "calculate_score thr dets anns =
          metrics thr (map entry_of (zip anns dets), [], [])"
    using calculate_score_pairing [OF pairing_identical [OF assms(1,3)]]
    by (simp add: m1 fold_remove1_self)
  also have "\<dots> = Inr \<lparr>precision = 1, recall = 1, f1 = 1, color_accuracy = 1, avg_position_error = 0,
                true_positives = length anns, false_positives = 0, false_negatives = 0,
                combined_score = 90\<rparr>"
    using metrics_perfect [OF thr ne] e l by simp
  finally show ?thesis by simp
qed

theorem identical_detections_score_witness:
  "\<exists>r. calculate_score 50
         [\<lparr>det_x = 120, det_y = 80, det_radius = 25, det_color = ''red''\<rparr>,
          \<lparr>det_x = 120, det_y = 80, det_radius = 30, det_color = ''blue''\<rparr>]
         [\<lparr>ann_x = 120, ann_y = 80, ann_color = ''red''\<rparr>,
          \<lparr>ann_x = 120, ann_y = 80, ann_color = ''blue''\<rparr>] = Inr r \<and>
       precision r = 1 \<and> recall r = 1 \<and> f1 r = 1 \<and> color_accuracy r = 1 \<and>
       combined_score r = 90"
  using identical_detections_score [of 50
         "[\<lparr>ann_x = 120, ann_y = 80, ann_color = ''red''\<rparr>,
          \<lparr>ann_x = 120, ann_y = 80, ann_color = ''blue''\<rparr>]"
         "[\<lparr>det_x = 120, det_y = 80, det_radius = 25, det_color = ''red''\<rparr>,
          \<lparr>det_x = 120, det_y = 80, det_radius = 30, det_color = ''blue''\<rparr>]"]
  by (auto simp: identical_def)

text \<open>
  The claim as stated covers the empty annotation list. There the guards on the zero
  denominators give precision, recall, F1 and colour accuracy 0, and the combined score
  is -10.
\<close>

theorem identical_score_counterexample:
  "calculate_score 50 [] [] =
     Inr \<lparr>precision = 0, recall = 0, f1 = 0, color_accuracy = 0, avg_position_error = 50,
          true_positives = 0, false_positives = 0, false_negatives = 0, combined_score = -10\<rparr>"
  by (simp add: calculate_score_def metrics_def)

lemma calculate_score_returns:
  assumes "thr \<noteq> 0"
  shows "\<exists>r. calculate_score thr dets anns = Inr r"
proof -
  obtain ps rest where p: "pairing thr anns dets = (ps, rest)" by (cases "pairing thr anns dets")
  show ?thesis using metrics_total [OF assms] calculate_score_pairing [OF p] by simp
qed

lemma calculate_score_counts:
  assumes "calculate_score thr dets anns = Inr r" and "pairing thr anns dets = (ps, rest)"
  shows "true_positives r = length ps" and "false_positives r = length rest"
    and "false_negatives r = length (fold remove1 (map fst ps) anns)"
  using metrics_counts [of thr "map entry_of ps" rest "fold remove1 (map fst ps) anns" r]
    assms calculate_score_pairing [OF assms(2)] by simp_all

subsection \<open>Empty detection or annotation lists\<close>

lemma pairing_no_detections: "pairing thr anns [] = ([], [])"
  by (induction anns) simp_all

lemma metrics_nothing_matched:
  assumes "thr \<noteq> 0"
  shows "metrics thr ([], ud, ua) =
           Inr \<lparr>precision = 0, recall = 0, f1 = 0, color_accuracy = 0, avg_position_error = thr,
                true_positives = 0, false_positives = length ud, false_negatives = length ua,
                combined_score = -10\<rparr>"
  using assms by (simp add: metrics_def Let_def)

text \<open>
  Claim C6, amended. For every threshold other than zero the scorer returns on empty lists:
  with no detections and N annotations, precision, recall, F1 and colour accuracy are 0,
  there are no true positives and N false negatives; with no annotations and M detections
  there are M false positives and precision and recall are 0. In both cases the mean
  positional error is the threshold and the combined score is -10.
\<close>

theorem degenerate_inputs:
  assumes "thr \<noteq> 0"
  shows "calculate_score thr [] anns =
           Inr \<lparr>precision = 0, recall = 0, f1 = 0, color_accuracy = 0, avg_position_error = thr,
                true_positives = 0, false_positives = 0, false_negatives = length anns,
                combined_score = -10\<rparr> \<and>
         calculate_score thr dets [] =
           Inr \<lparr>precision = 0, recall = 0, f1 = 0, color_accuracy = 0, avg_position_error = thr,
                true_positives = 0, false_positives = length dets, false_negatives = 0,
                combined_score = -10\<rparr>"
proof -
  have "calculate_score thr [] anns = metrics thr ([], [], anns)"
    using calculate_score_pairing [OF pairing_no_detections] by simp
  moreover have "calculate_score thr dets [] = metrics thr ([], dets, [])"
    by (simp add: calculate_score_def)
  ultimately show ?thesis using metrics_nothing_matched [OF assms] by simp
qed

theorem degenerate_inputs_witness:
  "calculate_score 50 [] [\<lparr>ann_x = 10, ann_y = 20, ann_color = ''red''\<rparr>,
                          \<lparr>ann_x = 30, ann_y = 40, ann_color = ''blue''\<rparr>] =
     Inr \<lparr>precision = 0, recall = 0, f1 = 0, color_accuracy = 0, avg_position_error = 50,
          true_positives = 0, false_positives = 0, false_negatives = 2,
          combined_score = -10\<rparr> \<and>
   calculate_score 50 [\<lparr>det_x = 10, det_y = 20, det_radius = 15, det_color = ''red''\<rparr>] [] =
     Inr \<lparr>precision = 0, recall = 0, f1 = 0, color_accuracy = 0, avg_position_error = 50,
          true_positives = 0, false_positives = 1, false_negatives = 0,
          combined_score = -10\<rparr>"
  using degenerate_inputs [of 50 "[\<lparr>ann_x = 10, ann_y = 20, ann_color = ''red''\<rparr>,
                          \<lparr>ann_x = 30, ann_y = 40, ann_color = ''blue''\<rparr>]"
      "[\<lparr>det_x = 10, det_y = 20, det_radius = 15, det_color = ''red''\<rparr>]"]
  by simp

text \<open>
  With a zero threshold nothing can be matched, \<^verbatim>\<open>avg_pos_error\<close> is the threshold and
  \<^verbatim>\<open>avg_pos_error / threshold\<close> divides zero by zero: the scorer raises.
\<close>

theorem degenerate_inputs_counterexample:
  "calculate_score 0 [] [\<lparr>ann_x = 10, ann_y = 20, ann_color = ''red''\<rparr>] = Inl ZeroDivisionError"
  by (simp add: calculate_score_def metrics_def)

subsection \<open>The distance test is strict\<close>





subsection \<open>Greedy matching in annotation order\<close>

lemma nearest_first_unique:
  assumes "nearest_first thr a ud c" and "nearest_first thr a ud c'"
  shows "c = c'"
proof (cases c)
  case None
  show ?thesis
  proof (cases c')
    case None
    with \<open>c = None\<close> show ?thesis by simp
  next
    case (Some p)
    obtain k d where "p = (k, d)" by (cases p)
    with assms None Some have "k < length ud" "euclid (ud ! k) a < thr" "thr \<le> euclid (ud ! k) a"
      by (simp_all add: nearest_first_def)
    then show ?thesis by simp
  qed
next
  case (Some p)
  obtain k d where p: "p = (k, d)" by (cases p)
  from assms(1) Some p have c: "k < length ud" "d = euclid (ud ! k) a" "d < thr"
    "\<forall>i<length ud. d \<le> euclid (ud ! i) a" "\<forall>i<k. d < euclid (ud ! i) a"
    by (auto simp: nearest_first_def)
  show ?thesis
  proof (cases c')
    case None
    with assms(2) c(1) have "thr \<le> euclid (ud ! k) a" by (simp add: nearest_first_def)
    with c show ?thesis by simp
  next
    case (Some p')
    obtain k' d' where p': "p' = (k', d')" by (cases p')
    from assms(2) Some p' have c': "k' < length ud" "d' = euclid (ud ! k') a" "d' < thr"
      "\<forall>i<length ud. d' \<le> euclid (ud ! i) a" "\<forall>i<k'. d' < euclid (ud ! i) a"
      by (auto simp: nearest_first_def)
    have "d \<le> d'" using c(4) c'(1,2) by simp
    moreover have "d' \<le> d" using c'(4) c(1,2) by simp
    ultimately have d: "d = d'" by simp
    have "\<not> k < k'" using c'(5) c(2) d by auto
    moreover have "\<not> k' < k" using c(5) c'(2) d by auto
    ultimately have "k = k'" by simp
    with d p p' \<open>c = Some p\<close> Some show ?thesis by simp
  qed
qed

lemma match_step_entry:
  assumes "a \<in> set ua"
  shows "match_step thr a (m, ud, ua) =
        (case best_candidate thr a ud 0 None of
           None \<Rightarrow> Inr (m, ud, ua)
         | Some (k, d) \<Rightarrow> Inr (m @ [entry_of (a, ud ! k)], pop_at k ud, remove1 a ua))"
proof (cases "best_candidate thr a ud 0 None")
  case None
  then show ?thesis by simp
next
  case (Some p)
  obtain k d where p: "p = (k, d)" by (cases p)
  have "d = euclid (ud ! k) a" using best_candidate_SomeD(2) Some p by simp
  with Some p assms show ?thesis by (simp add: entry_of_def)
qed

lemma euclid_same_y: "det_y d = ann_y a \<Longrightarrow> euclid d a = \<bar>det_x d - ann_x a\<bar>"
  by (simp add: euclid_def)

text \<open>
  Claim C2. For the annotation at hand the inner loop returns the detection that
  \<open>nearest_first\<close> describes: within the threshold, nearest among the detections not yet
  matched, the lowest index on a tie; the rule determines the choice. One iteration appends
  that pair, removes the detection and the annotation from the unmatched lists, and leaves
  the state alone when nothing is within the threshold; the annotations are taken in input
  order. After the loop the true positives are the pairs, the false negatives the
  annotations left unpaired and the false positives the detections left unpaired. The
  assignment is a function of the two lists and the threshold.
\<close>

theorem greedy_annotation_order:
  "nearest_first thr a ud (best_candidate thr a ud 0 None) \<and>
   (\<forall>c. nearest_first thr a ud c \<longrightarrow> c = best_candidate thr a ud 0 None) \<and>
   (a \<in> set ua \<longrightarrow>
      match_step thr a (m, ud, ua) =
        (case best_candidate thr a ud 0 None of
           None \<Rightarrow> Inr (m, ud, ua)
         | Some (k, d) \<Rightarrow> Inr (m @ [entry_of (a, ud ! k)], pop_at k ud, remove1 a ua))) \<and>
   greedy_matching thr (a # anns) (m, ud, ua) =
     (case match_step thr a (m, ud, ua) of
        Inl e \<Rightarrow> Inl e
      | Inr st \<Rightarrow> greedy_matching thr anns st) \<and>
   (\<exists>ps rest. pairing thr annotations detections = (ps, rest) \<and>
      greedy_matching thr annotations ([], detections, annotations) =
        Inr (map entry_of ps, rest, fold remove1 (map fst ps) annotations) \<and>
      (\<forall>r. calculate_score thr detections annotations = Inr r \<longrightarrow>
         true_positives r = length ps \<and>
         false_negatives r = length (fold remove1 (map fst ps) annotations) \<and>
         false_negatives r = length annotations - length ps \<and>
         false_positives r = length rest \<and>
         false_positives r = length detections - length ps))"
proof -
  have 1: "nearest_first thr a ud (best_candidate thr a ud 0 None)"
    by (rule best_candidate_nearest)
  have 2: "\<forall>c. nearest_first thr a ud c \<longrightarrow> c = best_candidate thr a ud 0 None"
    using nearest_first_unique [OF _ 1] by blast
  have 3: "a \<in> set ua \<longrightarrow>
      match_step thr a (m, ud, ua) =
        (case best_candidate thr a ud 0 None of
           None \<Rightarrow> Inr (m, ud, ua)
         | Some (k, d) \<Rightarrow> Inr (m @ [entry_of (a, ud ! k)], pop_at k ud, remove1 a ua))"
    using match_step_entry by blast
  have 4: "greedy_matching thr (a # anns) (m, ud, ua) =
     (case match_step thr a (m, ud, ua) of
        Inl e \<Rightarrow> Inl e
      | Inr st \<Rightarrow> greedy_matching thr anns st)"
    by simp
  obtain ps rest where p: "pairing thr annotations detections = (ps, rest)"
    by (cases "pairing thr annotations detections")
  have g: "greedy_matching thr annotations ([], detections, annotations) =
        Inr (map entry_of ps, rest, fold remove1 (map fst ps) annotations)"
    using greedy_matching_pairing [OF _ p, of annotations "[]"] by simp
  have c: "true_positives r = length ps \<and>
         false_negatives r = length (fold remove1 (map fst ps) annotations) \<and>
         false_negatives r = length annotations - length ps \<and>
         false_positives r = length rest \<and>
         false_positives r = length detections - length ps"
    if "calculate_score thr detections annotations = Inr r" for r
    using calculate_score_counts [OF that p] pairing_length_detections [OF p]
      pairing_length_annotations [OF p] by arith
  have 5: "\<exists>ps rest. pairing thr annotations detections = (ps, rest) \<and>
      greedy_matching thr annotations ([], detections, annotations) =
        Inr (map entry_of ps, rest, fold remove1 (map fst ps) annotations) \<and>
      (\<forall>r. calculate_score thr detections annotations = Inr r \<longrightarrow>
         true_positives r = length ps \<and>
         false_negatives r = length (fold remove1 (map fst ps) annotations) \<and>
         false_negatives r = length annotations - length ps \<and>
         false_positives r = length rest \<and>
         false_positives r = length detections - length ps)"
    using p g c by blast
  from 1 2 3 4 5 show ?thesis by (intro conjI)
qed

theorem greedy_annotation_order_witness:
  "best_candidate 50 \<lparr>ann_x = 0, ann_y = 0, ann_color = ''red''\<rparr>
      [\<lparr>det_x = 5, det_y = 0, det_radius = 20, det_color = ''blue''\<rparr>,
       \<lparr>det_x = -5, det_y = 0, det_radius = 20, det_color = ''red''\<rparr>,
       \<lparr>det_x = 100, det_y = 0, det_radius = 20, det_color = ''red''\<rparr>] 0 None = Some (0, 5) \<and>
   nearest_first 50 \<lparr>ann_x = 0, ann_y = 0, ann_color = ''red''\<rparr>
      [\<lparr>det_x = 5, det_y = 0, det_radius = 20, det_color = ''blue''\<rparr>,
       \<lparr>det_x = -5, det_y = 0, det_radius = 20, det_color = ''red''\<rparr>,
       \<lparr>det_x = 100, det_y = 0, det_radius = 20, det_color = ''red''\<rparr>] (Some (0, 5)) \<and>
   match_step 50 \<lparr>ann_x = 0, ann_y = 0, ann_color = ''red''\<rparr>
      ([],
       [\<lparr>det_x = 5, det_y = 0, det_radius = 20, det_color = ''blue''\<rparr>,
        \<lparr>det_x = -5, det_y = 0, det_radius = 20, det_color = ''red''\<rparr>,
        \<lparr>det_x = 100, det_y = 0, det_radius = 20, det_color = ''red''\<rparr>],
       [\<lparr>ann_x = 0, ann_y = 0, ann_color = ''red''\<rparr>,
        \<lparr>ann_x = -5, ann_y = 0, ann_color = ''red''\<rparr>]) =
     Inr ([\<lparr>distance = 5, color_match = False\<rparr>],
          [\<lparr>det_x = -5, det_y = 0, det_radius = 20, det_color = ''red''\<rparr>,
           \<lparr>det_x = 100, det_y = 0, det_radius = 20, det_color = ''red''\<rparr>],
          [\<lparr>ann_x = -5, ann_y = 0, ann_color = ''red''\<rparr>]) \<and>
   pairing 50
      [\<lparr>ann_x = 0, ann_y = 0, ann_color = ''red''\<rparr>,
       \<lparr>ann_x = -5, ann_y = 0, ann_color = ''red''\<rparr>]
      [\<lparr>det_x = 5, det_y = 0, det_radius = 20, det_color = ''blue''\<rparr>,
       \<lparr>det_x = -5, det_y = 0, det_radius = 20, det_color = ''red''\<rparr>,
       \<lparr>det_x = 100, det_y = 0, det_radius = 20, det_color = ''red''\<rparr>] =
     ([(\<lparr>ann_x = 0, ann_y = 0, ann_color = ''red''\<rparr>,
        \<lparr>det_x = 5, det_y = 0, det_radius = 20, det_color = ''blue''\<rparr>),
       (\<lparr>ann_x = -5, ann_y = 0, ann_color = ''red''\<rparr>,
        \<lparr>det_x = -5, det_y = 0, det_radius = 20, det_color = ''red''\<rparr>)],
      [\<lparr>det_x = 100, det_y = 0, det_radius = 20, det_color = ''red''\<rparr>]) \<and>
   (\<exists>r. calculate_score 50
          [\<lparr>det_x = 5, det_y = 0, det_radius = 20, det_color = ''blue''\<rparr>,
           \<lparr>det_x = -5, det_y = 0, det_radius = 20, det_color = ''red''\<rparr>,
           \<lparr>det_x = 100, det_y = 0, det_radius = 20, det_color = ''red''\<rparr>]
          [\<lparr>ann_x = 0, ann_y = 0, ann_color = ''red''\<rparr>,
           \<lparr>ann_x = -5, ann_y = 0, ann_color = ''red''\<rparr>] = Inr r \<and>
        true_positives r = 2 \<and> false_negatives r = 0 \<and> false_positives r = 1)"
proof -
  let ?a1 = "\<lparr>ann_x = 0, ann_y = 0, ann_color = ''red''\<rparr>"
  let ?a2 = "\<lparr>ann_x = -5, ann_y = 0, ann_color = ''red''\<rparr>"
  let ?d0 = "\<lparr>det_x = 5, det_y = 0, det_radius = 20, det_color = ''blue''\<rparr>"
  let ?d1 = "\<lparr>det_x = -5, det_y = 0, det_radius = 20, det_color = ''red''\<rparr>"
  let ?d2 = "\<lparr>det_x = 100, det_y = 0, det_radius = 20, det_color = ''red''\<rparr>"
  have bc: "best_candidate 50 ?a1 [?d0, ?d1, ?d2] 0 None = Some (0, 5)"
    by (simp add: euclid_same_y Let_def)
  have p: "pairing 50 [?a1, ?a2] [?d0, ?d1, ?d2] = ([(?a1, ?d0), (?a2, ?d1)], [?d2])"
    by (simp add: euclid_same_y Let_def pop_at_def)
  have e: "entry_of (?a1, ?d0) = \<lparr>distance = 5, color_match = False\<rparr>"
    by (simp add: entry_of_def euclid_same_y)
  obtain r where r: "calculate_score 50 [?d0, ?d1, ?d2] [?a1, ?a2] = Inr r"
    using calculate_score_returns [of 50 "[?d0, ?d1, ?d2]" "[?a1, ?a2]"] by auto
  note t = greedy_annotation_order [where thr = 50 and a = ?a1 and ud = "[?d0, ?d1, ?d2]"
      and ua = "[?a1, ?a2]" and m = "[]" and anns = "[?a2]"
      and annotations = "[?a1, ?a2]" and detections = "[?d0, ?d1, ?d2]"]
  have 1: "nearest_first 50 ?a1 [?d0, ?d1, ?d2] (Some (0, 5))" using t bc by simp
  have 2: "match_step 50 ?a1 ([], [?d0, ?d1, ?d2], [?a1, ?a2]) =
             Inr ([\<lparr>distance = 5, color_match = False\<rparr>], [?d1, ?d2], [?a2])"
    using t bc e by (simp add: pop_at_def)
  have 3: "true_positives r = 2 \<and> false_negatives r = 0 \<and> false_positives r = 1"
    using t p r by simp
  from bc 1 2 p 3 r show ?thesis by blast
qed

section \<open>Properties of the colour classifier\<close>

text \<open>
  Claim C4, amended. A pixel matches red exactly when its hue lies in one of the two red
  hue ranges (bounds included) and saturation and value reach the red floors; it matches
  blue exactly when its hue lies in the first blue range, or in the second blue range
  provided the bounds of that second range differ, and saturation and value reach the
  blue floors. Only the second blue range is disabled when its bounds are equal; a red
  range or the first blue range with equal bounds matches the one hue equal to its bounds.
\<close>

theorem hue_ranges_and_floors:
  "(is_red h s v params \<longleftrightarrow>
      ((redH1Low params \<le> h \<and> h \<le> redH1High params) \<or>
       (redH2Low params \<le> h \<and> h \<le> redH2High params)) \<and>
      redSMin params \<le> s \<and> redVMin params \<le> v) \<and>
   (is_blue h s v params \<longleftrightarrow>
      ((blueH1Low params \<le> h \<and> h \<le> blueH1High params) \<or>
       (blueH2Low params \<noteq> blueH2High params \<and>
        blueH2Low params \<le> h \<and> h \<le> blueH2High params)) \<and>
      blueSMin params \<le> s \<and> blueVMin params \<le> v) \<and>
   (blueH2Low params = blueH2High params \<longrightarrow>
      (is_blue h s v params \<longleftrightarrow>
         blueH1Low params \<le> h \<and> h \<le> blueH1High params \<and>
         blueSMin params \<le> s \<and> blueVMin params \<le> v)) \<and>
   (redH1Low params = redH1High params \<longrightarrow>
      (is_red h s v params \<longleftrightarrow>
         (h = redH1Low params \<or> (redH2Low params \<le> h \<and> h \<le> redH2High params)) \<and>
         redSMin params \<le> s \<and> redVMin params \<le> v)) \<and>
   (redH2Low params = redH2High params \<longrightarrow>
      (is_red h s v params \<longleftrightarrow>
         ((redH1Low params \<le> h \<and> h \<le> redH1High params) \<or> h = redH2Low params) \<and>
         redSMin params \<le> s \<and> redVMin params \<le> v)) \<and>
   (blueH1Low params = blueH1High params \<longrightarrow>
      (is_blue h s v params \<longleftrightarrow>
         (h = blueH1Low params \<or>
          (blueH2Low params \<noteq> blueH2High params \<and>
           blueH2Low params \<le> h \<and> h \<le> blueH2High params)) \<and>
         blueSMin params \<le> s \<and> blueVMin params \<le> v))"
  by (auto simp: is_red_def is_blue_def Let_def)

theorem hue_ranges_and_floors_witness:
  "is_blue 0 200 200 example_params = False \<and>
   is_blue 110 200 200 example_params = True \<and>
   is_red 5 200 200 (example_params\<lparr>redH1Low := 5, redH1High := 5\<rparr>) = True \<and>
   is_red 6 200 200 (example_params\<lparr>redH1Low := 5, redH1High := 5\<rparr>) = False"
  using hue_ranges_and_floors [of 0 200 200 example_params]
    hue_ranges_and_floors [of 110 200 200 example_params]
    hue_ranges_and_floors [of 5 200 200 "example_params\<lparr>redH1Low := 5, redH1High := 5\<rparr>"]
    hue_ranges_and_floors [of 6 200 200 "example_params\<lparr>redH1Low := 5, redH1High := 5\<rparr>"]
  by (simp add: example_params_def)

text \<open>
  With the first red range set to the single hue 5, a pixel of hue 5 above the floors
  matches red, although the second red range does not contain 5: the degenerate range is
  not disabled.
\<close>

theorem degenerate_red_range_counterexample:
  "is_red 5 200 200 (example_params\<lparr>redH1Low := 5, redH1High := 5\<rparr>) \<and>
   redH1Low (example_params\<lparr>redH1Low := 5, redH1High := 5\<rparr>) =
     redH1High (example_params\<lparr>redH1Low := 5, redH1High := 5\<rparr>) \<and>
   \<not> (redH2Low (example_params\<lparr>redH1Low := 5, redH1High := 5\<rparr>) \<le> 5 \<and>
      5 \<le> redH2High (example_params\<lparr>redH1Low := 5, redH1High := 5\<rparr>))"
  by (simp add: is_red_def example_params_def)

section \<open>Properties of the rescaling\<close>

subsection \<open>Rounding to binary64\<close>









subsection \<open>The rescaled fields\<close>




subsection \<open>Images of 1696, 1536 and 2000 pixels\<close>

















section \<open>Properties of the local refinement\<close>

lemma local_step_improving:
  assumes "neighbor_params draw (current_params st) (rng st) = (neighbor, g1)"
    and "evaluate neighbor = Inr result" and "current_score st < result"
  shows "\<exists>st'. local_step draw evaluate st = Inr st' \<and>
           current_params st' = neighbor \<and> current_score st' = result \<and>
           no_improvement_count st' = 0 \<and> improvements st' = Suc (improvements st) \<and>
           best_score st' = max (best_score st) result \<and> rng st' = g1"
  using assms by (simp add: local_step_def Let_def max_def)

lemma local_step_counting:
  assumes "neighbor_params draw (current_params st) (rng st) = (neighbor, g1)"
    and "evaluate neighbor = Inr result" and "\<not> current_score st < result"
    and "no_improvement_count st < 10"
  shows "local_step draw evaluate st =
           Inr (st\<lparr>no_improvement_count := Suc (no_improvement_count st), rng := g1\<rparr>)"
  using assms by (simp add: local_step_def Let_def)

lemma local_step_jump:
  assumes "neighbor_params draw (current_params st) (rng st) = (neighbor, g1)"
    and "evaluate neighbor = Inr result" and "\<not> current_score st < result"
    and "\<not> no_improvement_count st < 10"
  shows "local_step draw evaluate st =
           Inr (st\<lparr>current_params := fst (neighbor_params draw (best_params_raw st) g1),
                   current_score := best_score st, no_improvement_count := 0,
                   rng := snd (neighbor_params draw (best_params_raw st) g1)\<rparr>)"
  using assms by (simp add: local_step_def Let_def split: prod.splits)

lemma local_step_best_score:
  assumes "local_step draw evaluate st = Inr st'"
  shows "best_score st \<le> best_score st'"
proof -
  obtain neighbor g1 where n: "neighbor_params draw (current_params st) (rng st) = (neighbor, g1)"
    by (cases "neighbor_params draw (current_params st) (rng st)")
  show ?thesis
  proof (cases "evaluate neighbor")
    case (Inl e)
    with assms n show ?thesis by (simp add: local_step_def)
  next
    case (Inr result)
    show ?thesis
    proof (cases "current_score st < result")
      case True
      from local_step_improving [where st = st and evaluate = evaluate, OF n Inr True] assms show ?thesis by auto
    next
      case False
      show ?thesis
      proof (cases "no_improvement_count st < 10")
        case True
        from local_step_counting [where st = st and evaluate = evaluate, OF n Inr False True] assms show ?thesis by auto
      next
        case c: False
        from local_step_jump [where st = st and evaluate = evaluate, OF n Inr False c] assms show ?thesis by auto
      qed
    qed
  qed
qed

lemma local_search_best_score:
  "local_search draw evaluate n st = Inr st' \<Longrightarrow> best_score st \<le> best_score st'"
proof (induction n arbitrary: st)
  case 0
  then show ?case by simp
next
  case (Suc n)
  then obtain st1 where s: "local_step draw evaluate st = Inr st1"
    and r: "local_search draw evaluate n st1 = Inr st'"
    by (auto split: sum.splits)
  from local_step_best_score [OF s] Suc.IH [OF r] show ?case by simp
qed

lemma local_step_returns:
  assumes "\<forall>p. \<exists>s. evaluate p = Inr s"
  shows "\<exists>st'. local_step draw evaluate st = Inr st'"
proof -
  obtain neighbor g1 where n: "neighbor_params draw (current_params st) (rng st) = (neighbor, g1)"
    by (cases "neighbor_params draw (current_params st) (rng st)")
  from assms obtain result where e: "evaluate neighbor = Inr result" by blast
  show ?thesis using n e by (simp add: local_step_def Let_def split: prod.splits)
qed

lemma local_search_returns:
  assumes "\<forall>p. \<exists>s. evaluate p = Inr s"
  shows "\<exists>st'. local_search draw evaluate n st = Inr st'"
proof (induction n arbitrary: st)
  case 0
  show ?case by simp
next
  case (Suc n)
  obtain st1 where "local_step draw evaluate st = Inr st1"
    using local_step_returns [OF assms] by blast
  with Suc show ?case by simp
qed

lemma local_refinement_best_score:
  assumes "local_refinement draw evaluate n params score source g = Inr (params', score', source', g')"
  shows "score \<le> score'"
proof (cases "n > 0")
  case True
  with assms obtain st' where
    s: "local_search draw evaluate (nat n)
          \<lparr>current_params = params, current_score = score,
           no_improvement_count = 0, improvements = 0,
           best_params_raw = params, best_score = score, best_source = source,
           rng = g\<rparr> = Inr st'" and "score' = best_score st'"
    by (auto simp: local_refinement_def split: sum.splits)
  with local_search_best_score [OF s] show ?thesis by simp
next
  case False
  with assms show ?thesis by (simp add: local_refinement_def)
qed

lemma local_refinement_returns:
  assumes "\<forall>p. \<exists>s. evaluate p = Inr s"
  shows "\<exists>r. local_refinement draw evaluate n params score source g = Inr r"
proof (cases "n > 0")
  case True
  obtain st' where "local_search draw evaluate (nat n)
          \<lparr>current_params = params, current_score = score,
           no_improvement_count = 0, improvements = 0,
           best_params_raw = params, best_score = score, best_source = source,
           rng = g\<rparr> = Inr st'"
    using local_search_returns [OF assms] by blast
  with True show ?thesis by (simp add: local_refinement_def)
next
  case False
  then show ?thesis by (simp add: local_refinement_def)
qed

lemma stuck_run:
  assumes "\<forall>p. \<exists>s. evaluate p = Inr s \<and> s \<le> current_score st"
    and "no_improvement_count st + n \<le> 10"
  shows "\<exists>g. local_search draw evaluate n st =
           Inr (st\<lparr>no_improvement_count := no_improvement_count st + n, rng := g\<rparr>)"
  using assms
proof (induction n arbitrary: st)
  case 0
  have "st = st\<lparr>no_improvement_count := no_improvement_count st, rng := rng st\<rparr>" by simp
  then show ?case by (metis local_search.simps(1) add.right_neutral)
next
  case (Suc n)
  obtain neighbor g1 where n: "neighbor_params draw (current_params st) (rng st) = (neighbor, g1)"
    by (cases "neighbor_params draw (current_params st) (rng st)")
  from Suc.prems(1) obtain result where e: "evaluate neighbor = Inr result"
    and le: "\<not> current_score st < result" by (metis not_less)
  have c: "no_improvement_count st < 10" using Suc.prems(2) by simp
  let ?st1 = "st\<lparr>no_improvement_count := Suc (no_improvement_count st), rng := g1\<rparr>"
  have s: "local_step draw evaluate st = Inr ?st1" by (rule local_step_counting [where st = st and evaluate = evaluate, OF n e le c])
  have "\<forall>p. \<exists>s. evaluate p = Inr s \<and> s \<le> current_score ?st1" using Suc.prems(1) by simp
  moreover have "no_improvement_count ?st1 + n \<le> 10" using Suc.prems(2) by simp
  ultimately obtain g where
    "local_search draw evaluate n ?st1 =
       Inr (?st1\<lparr>no_improvement_count := no_improvement_count ?st1 + n, rng := g\<rparr>)"
    using Suc.IH by blast
  with s show ?case by auto
qed

lemma local_search_Suc_right:
  "local_search draw evaluate (Suc n) st =
     (case local_search draw evaluate n st of
        Inl e \<Rightarrow> Inl e
      | Inr st' \<Rightarrow> local_step draw evaluate st')"
proof (induction n arbitrary: st)
  case 0
  show ?case by (simp split: sum.splits)
next
  case (Suc n)
  show ?case
  proof (cases "local_step draw evaluate st")
    case (Inl e)
    then show ?thesis by simp
  next
    case (Inr st1)
    have "local_search draw evaluate (Suc (Suc n)) st = local_search draw evaluate (Suc n) st1"
      using Inr by simp
    also have "\<dots> = (case local_search draw evaluate n st1 of
        Inl e \<Rightarrow> Inl e | Inr st' \<Rightarrow> local_step draw evaluate st')"
      by (rule Suc.IH)
    also have "local_search draw evaluate n st1 = local_search draw evaluate (Suc n) st"
      using Inr by simp
    finally show ?thesis .
  qed
qed

lemma local_step_not_improving:
  assumes "neighbor_params draw (current_params st) (rng st) = (neighbor, g1)"
    and "evaluate neighbor = Inr result" and "\<not> current_score st < result"
  shows "local_step draw evaluate st =
           (if no_improvement_count st < 10
            then Inr (st\<lparr>no_improvement_count := Suc (no_improvement_count st), rng := g1\<rparr>)
            else Inr (st\<lparr>current_params := fst (neighbor_params draw (best_params_raw st) g1),
                         current_score := best_score st, no_improvement_count := 0,
                         rng := snd (neighbor_params draw (best_params_raw st) g1)\<rparr>))"
  using local_step_counting [where st = st and evaluate = evaluate, OF assms]
    local_step_jump [where st = st and evaluate = evaluate, OF assms]
  by simp

lemma stuck_then_jump:
  assumes "\<forall>p. \<exists>s. evaluate p = Inr s \<and> s \<le> current_score st"
    and "no_improvement_count st = 0"
  shows "\<exists>g. local_search draw evaluate 11 st =
           Inr (st\<lparr>current_params := fst (neighbor_params draw (best_params_raw st) g),
                   current_score := best_score st, no_improvement_count := 0,
                   rng := snd (neighbor_params draw (best_params_raw st) g)\<rparr>)"
proof -
  obtain g where ten: "local_search draw evaluate 10 st =
      Inr (st\<lparr>no_improvement_count := 10, rng := g\<rparr>)"
    using stuck_run [OF assms(1), of 10 draw] assms(2) by auto
  let ?st10 = "st\<lparr>no_improvement_count := 10, rng := g\<rparr>"
  obtain neighbor g1 where n: "neighbor_params draw (current_params ?st10) (rng ?st10) = (neighbor, g1)"
    by (cases "neighbor_params draw (current_params ?st10) (rng ?st10)")
  from assms(1) obtain result where e: "evaluate neighbor = Inr result"
    and "result \<le> current_score st" by blast
  then have le: "\<not> current_score ?st10 < result" by simp
  have "local_search draw evaluate (Suc 10) st = local_step draw evaluate ?st10"
    using ten by (simp only: local_search_Suc_right sum.case)
  also have "\<dots> = Inr (?st10\<lparr>current_params := fst (neighbor_params draw (best_params_raw ?st10) g1),
                         current_score := best_score ?st10, no_improvement_count := 0,
                         rng := snd (neighbor_params draw (best_params_raw ?st10) g1)\<rparr>)"
    using local_step_not_improving [where st = ?st10 and evaluate = evaluate, OF n e le] by simp
  finally have "local_search draw evaluate 11 st =
      Inr (st\<lparr>current_params := fst (neighbor_params draw (best_params_raw st) g1),
              current_score := best_score st, no_improvement_count := 0,
              rng := snd (neighbor_params draw (best_params_raw st) g1)\<rparr>)"
    by simp
  then show ?thesis by blast
qed

text \<open>
  Claim C5, amended. In an iteration that does not improve on the current score the loop
  counts, and it jumps only when the count exceeds 10: with fewer than 10 earlier
  consecutive non-improving iterations the current point stays and the count goes up by
  one; in the eleventh consecutive non-improving iteration the current point becomes a
  fresh perturbation of the best parameters, the current score the best score, and the
  count 0. So a run of non-improving iterations from count 0 leaves the current point
  alone for 10 iterations and resets it in the eleventh.
\<close>

theorem escape_on_eleventh:
  "(neighbor_params draw (current_params st) (rng st) = (neighbor, g1) \<and>
    evaluate neighbor = Inr result \<and> \<not> current_score st < result \<longrightarrow>
      local_step draw evaluate st =
        (if no_improvement_count st < 10
         then Inr (st\<lparr>no_improvement_count := Suc (no_improvement_count st), rng := g1\<rparr>)
         else Inr (st\<lparr>current_params := fst (neighbor_params draw (best_params_raw st) g1),
                      current_score := best_score st, no_improvement_count := 0,
                      rng := snd (neighbor_params draw (best_params_raw st) g1)\<rparr>))) \<and>
   ((\<forall>p. \<exists>s. evaluate p = Inr s \<and> s \<le> current_score st) \<and> no_improvement_count st = 0 \<longrightarrow>
      (\<forall>n\<le>10. \<exists>g. local_search draw evaluate n st =
                     Inr (st\<lparr>no_improvement_count := n, rng := g\<rparr>)) \<and>
      (\<exists>g. local_search draw evaluate 11 st =
             Inr (st\<lparr>current_params := fst (neighbor_params draw (best_params_raw st) g),
                     current_score := best_score st, no_improvement_count := 0,
                     rng := snd (neighbor_params draw (best_params_raw st) g)\<rparr>)))"
proof -
  have a: "local_step draw evaluate st =
        (if no_improvement_count st < 10
         then Inr (st\<lparr>no_improvement_count := Suc (no_improvement_count st), rng := g1\<rparr>)
         else Inr (st\<lparr>current_params := fst (neighbor_params draw (best_params_raw st) g1),
                      current_score := best_score st, no_improvement_count := 0,
                      rng := snd (neighbor_params draw (best_params_raw st) g1)\<rparr>))"
    if "neighbor_params draw (current_params st) (rng st) = (neighbor, g1)"
      and "evaluate neighbor = Inr result" and "\<not> current_score st < result"
    using local_step_not_improving [where st = st and evaluate = evaluate, OF that] .
  have b: "\<exists>g. local_search draw evaluate n st = Inr (st\<lparr>no_improvement_count := n, rng := g\<rparr>)"
    if "\<forall>p. \<exists>s. evaluate p = Inr s \<and> s \<le> current_score st"
      and "no_improvement_count st = 0" and "n \<le> 10" for n
    using stuck_run [OF that(1), of n draw] that(2,3) by simp
  have c: "\<exists>g. local_search draw evaluate 11 st =
             Inr (st\<lparr>current_params := fst (neighbor_params draw (best_params_raw st) g),
                     current_score := best_score st, no_improvement_count := 0,
                     rng := snd (neighbor_params draw (best_params_raw st) g)\<rparr>)"
    if "\<forall>p. \<exists>s. evaluate p = Inr s \<and> s \<le> current_score st"
      and "no_improvement_count st = 0"
    using stuck_then_jump [OF that] .
  from a b c show ?thesis by blast
qed

lemma neighbor_zero_draw:
  "neighbor_params zero_draw p g = (p\<lparr>dp := np_clip (dp p - 1 / 10) 1 (5 / 2)\<rparr>, g)"
  by (simp add: neighbor_params_def draw_below_def zero_draw_def mutate_once_def
      param_names_def Let_def)

theorem escape_on_eleventh_witness:
  "local_search zero_draw flat_score 10
      \<lparr>current_params = example_params, current_score = 0, no_improvement_count = 0,
       improvements = 0, best_params_raw = example_params, best_score = 0,
       best_source = ''Tracked Best'', rng = ()\<rparr> =
     Inr \<lparr>current_params = example_params, current_score = 0, no_improvement_count = 10,
          improvements = 0, best_params_raw = example_params, best_score = 0,
          best_source = ''Tracked Best'', rng = ()\<rparr> \<and>
   local_search zero_draw flat_score 11
      \<lparr>current_params = example_params, current_score = 0, no_improvement_count = 0,
       improvements = 0, best_params_raw = example_params, best_score = 0,
       best_source = ''Tracked Best'', rng = ()\<rparr> =
     Inr \<lparr>current_params = example_params\<lparr>dp := 7 / 5\<rparr>, current_score = 0,
          no_improvement_count = 0, improvements = 0, best_params_raw = example_params,
          best_score = 0, best_source = ''Tracked Best'', rng = ()\<rparr>"
proof -
  let ?st = "\<lparr>current_params = example_params, current_score = 0, no_improvement_count = 0,
       improvements = 0, best_params_raw = example_params, best_score = 0,
       best_source = ''Tracked Best'', rng = ()\<rparr>"
  have h: "(\<forall>p. \<exists>s. flat_score p = Inr s \<and> s \<le> current_score ?st) \<and> no_improvement_count ?st = 0"
    by (simp add: flat_score_def)
  have j: "fst (neighbor_params zero_draw example_params ()) = example_params\<lparr>dp := 7 / 5\<rparr>"
    by (simp add: neighbor_zero_draw np_clip_def example_params_def)
  note t = escape_on_eleventh [where st = ?st and evaluate = flat_score and draw = zero_draw]
  from t h have "\<forall>n\<le>10. \<exists>g. local_search zero_draw flat_score n ?st =
                     Inr (?st\<lparr>no_improvement_count := n, rng := g\<rparr>)" by blast
  then have a: "local_search zero_draw flat_score 10 ?st = Inr (?st\<lparr>no_improvement_count := 10\<rparr>)"
    by auto
  from t h have "\<exists>g. local_search zero_draw flat_score 11 ?st =
             Inr (?st\<lparr>current_params := fst (neighbor_params zero_draw (best_params_raw ?st) g),
                     current_score := best_score ?st, no_improvement_count := 0,
                     rng := snd (neighbor_params zero_draw (best_params_raw ?st) g)\<rparr>)" by blast
  then have b: "local_search zero_draw flat_score 11 ?st =
      Inr (?st\<lparr>current_params := example_params\<lparr>dp := 7 / 5\<rparr>\<rparr>)"
    using j by auto
  from a b show ?thesis by simp
qed

text \<open>
  After exactly ten non-improving iterations nothing has been reset: the current point is
  still the seed and the count is 10, while a perturbation of the best parameters would
  have changed \<^verbatim>\<open>dp\<close>.
\<close>

theorem escape_after_ten_counterexample:
  "local_search zero_draw flat_score 10
      \<lparr>current_params = example_params, current_score = 0, no_improvement_count = 0,
       improvements = 0, best_params_raw = example_params, best_score = 0,
       best_source = ''Tracked Best'', rng = ()\<rparr> =
     Inr \<lparr>current_params = example_params, current_score = 0, no_improvement_count = 10,
          improvements = 0, best_params_raw = example_params, best_score = 0,
          best_source = ''Tracked Best'', rng = ()\<rparr> \<and>
   fst (neighbor_params zero_draw example_params ()) = example_params\<lparr>dp := 7 / 5\<rparr> \<and>
   example_params\<lparr>dp := 7 / 5\<rparr> \<noteq> example_params"
proof -
  let ?st = "\<lparr>current_params = example_params, current_score = 0, no_improvement_count = 0,
       improvements = 0, best_params_raw = example_params, best_score = 0,
       best_source = ''Tracked Best'', rng = ()\<rparr>"
  have h: "\<forall>p. \<exists>s. flat_score p = Inr s \<and> s \<le> current_score ?st"
    by (simp add: flat_score_def)
  have "\<exists>g. local_search zero_draw flat_score 10 ?st =
           Inr (?st\<lparr>no_improvement_count := no_improvement_count ?st + 10, rng := g\<rparr>)"
    by (rule stuck_run [OF h]) simp
  then have a: "local_search zero_draw flat_score 10 ?st = Inr (?st\<lparr>no_improvement_count := 10\<rparr>)"
    by auto
  have j: "fst (neighbor_params zero_draw example_params ()) = example_params\<lparr>dp := 7 / 5\<rparr>"
    by (simp add: neighbor_zero_draw np_clip_def example_params_def)
  have d: "example_params\<lparr>dp := 7 / 5\<rparr> \<noteq> example_params"
    by (simp add: example_params_def)
  from a j d show ?thesis by simp
qed

text \<open>
  Claim C7. A refinement that returns has a best score no lower than the seed score, for
  every seed, seed score and number of iterations, and it returns whenever the evaluations
  return. In one iteration the neighbour becomes the current point when its score is
  strictly above the current score; otherwise there is no improvement, the best parameters
  and score stay, and the current point either stays or is the jump to a perturbation of
  the best parameters.
\<close>

theorem refinement_never_regresses:
  "(local_refinement draw evaluate n params score source g = Inr (params', score', source', g')
      \<longrightarrow> score \<le> score') \<and>
   ((\<forall>p. \<exists>s. evaluate p = Inr s) \<longrightarrow>
      (\<exists>r. local_refinement draw evaluate n params score source g = Inr r)) \<and>
   (local_search draw evaluate k st = Inr st' \<longrightarrow> best_score st \<le> best_score st') \<and>
   (neighbor_params draw (current_params st) (rng st) = (neighbor, g1) \<and>
    evaluate neighbor = Inr result \<longrightarrow>
      (current_score st < result \<longrightarrow>
         (\<exists>st1. local_step draw evaluate st = Inr st1 \<and>
            current_params st1 = neighbor \<and> current_score st1 = result \<and>
            improvements st1 = Suc (improvements st) \<and>
            best_score st1 = max (best_score st) result)) \<and>
      (\<not> current_score st < result \<longrightarrow>
         (\<exists>st1. local_step draw evaluate st = Inr st1 \<and>
            improvements st1 = improvements st \<and>
            best_params_raw st1 = best_params_raw st \<and> best_score st1 = best_score st \<and>
            (current_params st1 = current_params st \<and> current_score st1 = current_score st \<or>
             current_params st1 = fst (neighbor_params draw (best_params_raw st) g1) \<and>
             current_score st1 = best_score st))))"
proof -
  have a: "score \<le> score'"
    if "local_refinement draw evaluate n params score source g = Inr (params', score', source', g')"
    using that by (rule local_refinement_best_score)
  have b: "\<exists>r. local_refinement draw evaluate n params score source g = Inr r"
    if "\<forall>p. \<exists>s. evaluate p = Inr s"
    using that by (rule local_refinement_returns)
  have c: "best_score st \<le> best_score st'" if "local_search draw evaluate k st = Inr st'"
    using that by (rule local_search_best_score)
  have d: "\<exists>st1. local_step draw evaluate st = Inr st1 \<and>
            current_params st1 = neighbor \<and> current_score st1 = result \<and>
            improvements st1 = Suc (improvements st) \<and>
            best_score st1 = max (best_score st) result"
    if "neighbor_params draw (current_params st) (rng st) = (neighbor, g1)"
      and "evaluate neighbor = Inr result" and "current_score st < result"
    using local_step_improving [where st = st and evaluate = evaluate, OF that] by blast
  have e: "\<exists>st1. local_step draw evaluate st = Inr st1 \<and>
            improvements st1 = improvements st \<and>
            best_params_raw st1 = best_params_raw st \<and> best_score st1 = best_score st \<and>
            (current_params st1 = current_params st \<and> current_score st1 = current_score st \<or>
             current_params st1 = fst (neighbor_params draw (best_params_raw st) g1) \<and>
             current_score st1 = best_score st)"
    if "neighbor_params draw (current_params st) (rng st) = (neighbor, g1)"
      and "evaluate neighbor = Inr result" and "\<not> current_score st < result"
    using local_step_not_improving [where st = st and evaluate = evaluate, OF that] by simp
  from a b c d e show ?thesis by blast
qed

theorem refinement_never_regresses_witness:
  "local_refinement zero_draw low_dp_score 2 example_params (- (3 / 2)) ''Tracked Best'' () =
     Inr (example_params\<lparr>dp := 13 / 10\<rparr>, - (13 / 10), ''Tracked Best + Local Search'', ()) \<and>
   - (3 / 2) \<le> (- (13 / 10) :: real)"
proof -
  have r: "local_refinement zero_draw low_dp_score 2 example_params (- (3 / 2)) ''Tracked Best'' () =
     Inr (example_params\<lparr>dp := 13 / 10\<rparr>, - (13 / 10), ''Tracked Best + Local Search'', ())"
    by (simp add: local_refinement_def eval_nat_numeral local_step_def neighbor_zero_draw
        low_dp_score_def np_clip_def example_params_def Let_def)
  from refinement_never_regresses [where draw = zero_draw and evaluate = low_dp_score and n = 2
      and params = example_params and score = "- (3 / 2)" and source = "''Tracked Best''"
      and g = "()" and params' = "example_params\<lparr>dp := 13 / 10\<rparr>" and score' = "- (13 / 10)"
      and source' = "''Tracked Best + Local Search''" and g' = "()"] r
  have "- (3 / 2) \<le> (- (13 / 10) :: real)" by blast
  with r show ?thesis by simp
qed

section \<open>Properties of the tracked best parameters and the interrupt\<close>

lemma eval_loop_returns:
  assumes "thr \<noteq> 0"
  shows "\<exists>r. eval_loop detect thr params dataset acc results = Inr r"
proof (induction dataset arbitrary: acc results)
  case Nil
  show ?case by simp
next
  case (Cons img_data rest)
  obtain sc where "calculate_score thr (detect (img_image img_data) params (img_scale img_data))
      (img_poks img_data) = Inr sc"
    using calculate_score_returns [OF assms] by blast
  with Cons show ?case by (simp add: Let_def)
qed

lemma evaluate_params_returns:
  assumes "thr \<noteq> 0" and "dataset \<noteq> []"
  shows "\<exists>r. evaluate_params detect thr params dataset = Inr r"
proof -
  obtain r where "eval_loop detect thr params dataset 0 [] = Inr r"
    using eval_loop_returns [OF assms(1)] by blast
  with assms(2) show ?thesis by (cases r) (simp add: evaluate_params_def)
qed

lemma objective_function_best:
  assumes "objective_function detect thr train x tr = Inr (y, tr')"
  shows "\<exists>res. evaluate_params detect thr (params_of_values x) train = Inr res \<and>
           y = - avg_score res \<and>
           self_best tr' =
             (if beats (avg_score res) (self_best tr)
              then Some (params_of_values x, avg_score res) else self_best tr)"
proof (cases "evaluate_params detect thr (params_of_values x) train")
  case (Inl e)
  with assms show ?thesis by (simp add: objective_function_def)
next
  case (Inr res)
  with assms show ?thesis by (auto simp: objective_function_def Let_def)
qed

lemma objective_function_returns:
  assumes "thr \<noteq> 0" and "train \<noteq> []"
  shows "\<exists>r. objective_function detect thr train x tr = Inr r"
proof -
  obtain res where "evaluate_params detect thr (params_of_values x) train = Inr res"
    using evaluate_params_returns [OF assms] by blast
  then show ?thesis by (simp add: objective_function_def Let_def)
qed

lemma completed_evaluations_returns:
  assumes "thr \<noteq> 0" and "train \<noteq> []"
  shows "\<exists>tr'. completed_evaluations detect thr train xs tr = Inr tr'"
proof (induction xs arbitrary: tr)
  case Nil
  show ?case by simp
next
  case (Cons x xs)
  obtain r where "objective_function detect thr train x tr = Inr r"
    using objective_function_returns [OF assms] by blast
  with Cons show ?case by (cases r) simp
qed

lemma completed_evaluations_best:
  assumes "completed_evaluations detect thr train xs tr0 = Inr tr"
  shows "(case self_best tr of
            None \<Rightarrow> xs = [] \<and> self_best tr0 = None
          | Some (p, s) \<Rightarrow>
              (self_best tr0 = Some (p, s) \<or>
               (\<exists>x\<in>set xs. p = params_of_values x \<and>
                  (\<exists>res. evaluate_params detect thr p train = Inr res \<and> avg_score res = s))) \<and>
              (\<forall>x\<in>set xs. \<forall>res.
                  evaluate_params detect thr (params_of_values x) train = Inr res
                  \<longrightarrow> avg_score res \<le> s) \<and>
              (\<forall>p0 s0. self_best tr0 = Some (p0, s0) \<longrightarrow> s0 \<le> s))"
  using assms
proof (induction xs arbitrary: tr0)
  case Nil
  then show ?case by (auto split: option.splits)
next
  case (Cons x xs)
  from Cons.prems obtain y tr1 where o: "objective_function detect thr train x tr0 = Inr (y, tr1)"
    and c: "completed_evaluations detect thr train xs tr1 = Inr tr"
    by (auto split: sum.splits)
  from objective_function_best [OF o] obtain res where
    e: "evaluate_params detect thr (params_of_values x) train = Inr res"
    and b: "self_best tr1 =
             (if beats (avg_score res) (self_best tr0)
              then Some (params_of_values x, avg_score res) else self_best tr0)"
    by blast
  note ih = Cons.IH [OF c]
  show ?case
  proof (cases "beats (avg_score res) (self_best tr0)")
    case True
    with b have b1: "self_best tr1 = Some (params_of_values x, avg_score res)" by simp
    from True have t0: "\<forall>p0 s0. self_best tr0 = Some (p0, s0) \<longrightarrow> s0 \<le> avg_score res"
      by (auto simp: beats_def)
    from ih b1 obtain p s where s: "self_best tr = Some (p, s)"
      by (cases "self_best tr") auto
    from ih b1 s e t0 show ?thesis by (auto; fastforce)
  next
    case False
    with b have b1: "self_best tr1 = self_best tr0" by simp
    from False obtain p0 s0 where s0: "self_best tr0 = Some (p0, s0)" and le: "avg_score res \<le> s0"
      by (auto simp: beats_def split: option.splits)
    from ih b1 s0 obtain p s where s: "self_best tr = Some (p, s)"
      by (cases "self_best tr") auto
    from ih b1 s s0 le e show ?thesis by (auto; fastforce)
  qed
qed

text \<open>
  Claim C8. With no completed evaluation the tracker is the initial one and the interrupt
  branch raises \<^verbatim>\<open>ValueError\<close>. After at least one completed evaluation it returns the
  tracked best parameters and their score under the label of the interrupted run: the
  parameters are those of an evaluated point, the score is the score of that point, and
  no evaluated point scored higher. The evaluations complete when the threshold is not
  zero and the training set is not empty.
\<close>

theorem interrupted_fallback_tracked_best:
  "interrupted_fallback init_tracker =
     Inl (ValueError ''No parameters found - interrupted too early'') \<and>
   completed_evaluations detect thr train [] init_tracker = Inr init_tracker \<and>
   (xs \<noteq> [] \<and> completed_evaluations detect thr train xs init_tracker = Inr tr \<longrightarrow>
      (\<exists>p s. interrupted_fallback tr = Inr (p, s, ''Interrupted - Tracked Best'') \<and>
         self_best tr = Some (p, s) \<and>
         (\<exists>x\<in>set xs. p = params_of_values x \<and>
            (\<exists>res. evaluate_params detect thr p train = Inr res \<and> avg_score res = s)) \<and>
         (\<forall>x\<in>set xs. \<forall>res.
            evaluate_params detect thr (params_of_values x) train = Inr res
            \<longrightarrow> avg_score res \<le> s))) \<and>
   (thr \<noteq> 0 \<and> train \<noteq> [] \<longrightarrow>
      (\<exists>tr'. completed_evaluations detect thr train xs init_tracker = Inr tr'))"
proof -
  have a: "interrupted_fallback init_tracker =
     Inl (ValueError ''No parameters found - interrupted too early'')"
    by (simp add: interrupted_fallback_def init_tracker_def)
  have b: "completed_evaluations detect thr train [] init_tracker = Inr init_tracker" by simp
  have c: "\<exists>p s. interrupted_fallback tr = Inr (p, s, ''Interrupted - Tracked Best'') \<and>
         self_best tr = Some (p, s) \<and>
         (\<exists>x\<in>set xs. p = params_of_values x \<and>
            (\<exists>res. evaluate_params detect thr p train = Inr res \<and> avg_score res = s)) \<and>
         (\<forall>x\<in>set xs. \<forall>res.
            evaluate_params detect thr (params_of_values x) train = Inr res
            \<longrightarrow> avg_score res \<le> s)"
    if ne: "xs \<noteq> []" and ce: "completed_evaluations detect thr train xs init_tracker = Inr tr"
  proof -
    note cb = completed_evaluations_best [OF ce]
    have i: "self_best init_tracker = None" by (simp add: init_tracker_def)
    from cb ne obtain p s where s: "self_best tr = Some (p, s)"
      by (cases "self_best tr") auto
    from s have f: "interrupted_fallback tr = Inr (p, s, ''Interrupted - Tracked Best'')"
      by (simp add: interrupted_fallback_def)
    from cb s i have "\<exists>x\<in>set xs. p = params_of_values x \<and>
            (\<exists>res. evaluate_params detect thr p train = Inr res \<and> avg_score res = s)"
      by simp
    moreover from cb s have "\<forall>x\<in>set xs. \<forall>res.
            evaluate_params detect thr (params_of_values x) train = Inr res
            \<longrightarrow> avg_score res \<le> s"
      by simp
    ultimately show ?thesis using f s by blast
  qed
  have d: "\<exists>tr'. completed_evaluations detect thr train xs init_tracker = Inr tr'"
    if "thr \<noteq> 0" and "train \<noteq> []"
    using completed_evaluations_returns [OF that] .
  from a b c d show ?thesis by blast
qed

lemma origin_evaluation:
  "evaluate_params origin_detect 50 example_params
     [\<lparr>img_filename = ''a.jpg'',
       img_poks = [\<lparr>ann_x = 0, ann_y = 0, ann_color = ''red''\<rparr>],
       img_image = (), img_scale = 1\<rparr>] =
   Inr \<lparr>avg_score = 90,
        per_image = [(''a.jpg'',
          \<lparr>precision = 1, recall = 1, f1 = 1, color_accuracy = 1, avg_position_error = 0,
           true_positives = 1, false_positives = 0, false_negatives = 0,
           combined_score = 90\<rparr>)]\<rparr>"
  by (simp add: evaluate_params_def origin_detect_def calculate_score_def euclid_def
      metrics_def pop_at_def Let_def)

theorem interrupted_fallback_tracked_best_witness:
  "interrupted_fallback init_tracker =
     Inl (ValueError ''No parameters found - interrupted too early'') \<and>
   (\<exists>tr. completed_evaluations origin_detect 50
            [\<lparr>img_filename = ''a.jpg'',
              img_poks = [\<lparr>ann_x = 0, ann_y = 0, ann_color = ''red''\<rparr>],
              img_image = (), img_scale = 1\<rparr>]
            [example_params] init_tracker = Inr tr \<and>
         interrupted_fallback tr = Inr (example_params, 90, ''Interrupted - Tracked Best''))"
proof -
  let ?train = "[\<lparr>img_filename = ''a.jpg'',
              img_poks = [\<lparr>ann_x = 0, ann_y = 0, ann_color = ''red''\<rparr>],
              img_image = (), img_scale = 1\<rparr>]"
  have pv: "params_of_values example_params = example_params"
    by (simp add: params_of_values_def example_params_def)
  note t = interrupted_fallback_tracked_best [where detect = origin_detect and thr = 50
      and train = ?train and xs = "[example_params]"]
  have "\<exists>tr'. completed_evaluations origin_detect 50 ?train [example_params] init_tracker = Inr tr'"
    using t by simp
  then obtain tr where
    ce: "completed_evaluations origin_detect 50 ?train [example_params] init_tracker = Inr tr"
    by blast
  from t [where tr = tr] ce obtain p s where
    f: "interrupted_fallback tr = Inr (p, s, ''Interrupted - Tracked Best'')"
    and x: "\<exists>x\<in>set [example_params]. p = params_of_values x \<and>
            (\<exists>res. evaluate_params origin_detect 50 p ?train = Inr res \<and> avg_score res = s)"
    by blast
  from x pv origin_evaluation have "p = example_params" "s = 90" by auto
  with f ce t show ?thesis by blast
qed

end
